theory Spec2Isabelle
  imports Main "HOL-Library.Multiset" "HOL-Library.Char_ord" "HOL-Library.List_Lexorder"
begin

section \<open>Go values, types and calls\<close>

text \<open>
  The package works on arbitrary Go values through \<^verbatim>\<open>reflect\<close>. A value of the model
  carries its type, so that \<^verbatim>\<open>reflect.ValueOf(x).Type()\<close> and \<^verbatim>\<open>.Kind()\<close> are functions
  of the value. A nil pointer, a nil slice and a nil map are values of their own: the
  source tells them apart from the empty ones (\<^verbatim>\<open>IsNil\<close>, \<^verbatim>\<open>reflect.Zero\<close> against
  \<^verbatim>\<open>reflect.MakeSlice\<close>). The capacity of a slice is not part of the model.
\<close>

datatype kind =
  KInvalid | KBool | KInt | KString | KInterface | KPtr | KSlice | KArray | KMap | KStruct

datatype gtype =
    TBool
  | TInt
  | TString
  | TInterface
  | TPtr gtype
  | TSlice gtype
  | TArray nat gtype
  | TMap gtype gtype
  | TStruct string "gtype list"

datatype gval =
    VBool bool
  | VInt int
  | VString string
  | VNilIface
  | VIface gval
  | VNilPtr gtype
  | VPtr gval
  | VNilSlice gtype
  | VSlice gtype "gval list"
  | VArray gtype "gval list"
  | VNilMap gtype gtype
  | VMap gtype gtype "(gval \<times> gval) list"
  | VStruct string "gval list"

text \<open>
  The errors of the package (\<^verbatim>\<open>src/sqlx_db.go\<close>, the block of common error messages),
  \<^verbatim>\<open>db.ErrNoMoreRows\<close> of \<^verbatim>\<open>upper.io/db.v3\<close>, the errors the package builds with
  \<^verbatim>\<open>errors.New\<close> and \<^verbatim>\<open>fmt.Errorf\<close>, and the errors that the driver, the cursor or a
  user hook hands back.
\<close>

datatype error =
    ErrExpectingPointer
  | ErrExpectingSlicePointer
  | ErrExpectingSliceMapStruct
  | ErrExpectingMapOrStruct
  | ErrExpectingPointerToEitherMapOrStruct
  | errDeprecatedJSONBTag
  | ErrNoMoreRows
  | ErrorString string
  | ExternalError string

text \<open>
  A call either returns (its results, a Go \<^verbatim>\<open>error\<close> among them) or panics, with a
  message of the runtime or with the error given to \<^verbatim>\<open>panic(err)\<close>.
\<close>

datatype panic = Msg string | PanicErr error

datatype 'a exec = Returns 'a | Panics panic

fun typeOf :: "gval \<Rightarrow> gtype" where
  "typeOf (VBool b) = TBool"
| "typeOf (VInt i) = TInt"
| "typeOf (VString s) = TString"
| "typeOf VNilIface = TInterface"
| "typeOf (VIface v) = TInterface"
| "typeOf (VNilPtr t) = TPtr t"
| "typeOf (VPtr v) = TPtr (typeOf v)"
| "typeOf (VNilSlice t) = TSlice t"
| "typeOf (VSlice t xs) = TSlice t"
| "typeOf (VArray t xs) = TArray (length xs) t"
| "typeOf (VNilMap k e) = TMap k e"
| "typeOf (VMap k e m) = TMap k e"
| "typeOf (VStruct n fs) = TStruct n (map typeOf fs)"

fun Kind :: "gtype \<Rightarrow> kind" where
  "Kind TBool = KBool"
| "Kind TInt = KInt"
| "Kind TString = KString"
| "Kind TInterface = KInterface"
| "Kind (TPtr t) = KPtr"
| "Kind (TSlice t) = KSlice"
| "Kind (TArray n t) = KArray"
| "Kind (TMap k e) = KMap"
| "Kind (TStruct n ts) = KStruct"

text \<open>\<^verbatim>\<open>Type.Name()\<close>: the name of a defined type, empty for an unnamed composite type.\<close>

fun TypeName :: "gtype \<Rightarrow> string" where
  "TypeName TBool = ''bool''"
| "TypeName TInt = ''int''"
| "TypeName TString = ''string''"
| "TypeName (TStruct n ts) = n"
| "TypeName t = []"

text \<open>\<^verbatim>\<open>Type.Elem()\<close> panics on a type that has no element type.\<close>

fun Elem :: "gtype \<Rightarrow> gtype option" where
  "Elem (TPtr t) = Some t"
| "Elem (TSlice t) = Some t"
| "Elem (TArray n t) = Some t"
| "Elem (TMap k e) = Some e"
| "Elem t = None"

text \<open>\<^verbatim>\<open>reflect.Zero(t)\<close>.\<close>

fun reflect_Zero :: "gtype \<Rightarrow> gval" where
  "reflect_Zero TBool = VBool False"
| "reflect_Zero TInt = VInt 0"
| "reflect_Zero TString = VString []"
| "reflect_Zero TInterface = VNilIface"
| "reflect_Zero (TPtr t) = VNilPtr t"
| "reflect_Zero (TSlice t) = VNilSlice t"
| "reflect_Zero (TArray n t) = VArray t (replicate n (reflect_Zero t))"
| "reflect_Zero (TMap k e) = VNilMap k e"
| "reflect_Zero (TStruct n ts) = VStruct n (map reflect_Zero ts)"

text \<open>
  An argument of type \<^verbatim>\<open>interface{}\<close> is \<open>None\<close> for the nil interface and \<open>Some v\<close>
  otherwise; \<^verbatim>\<open>reflect.ValueOf\<close> of the nil interface is the invalid \<^verbatim>\<open>Value\<close>.
\<close>

definition ValueKind :: "gval option \<Rightarrow> kind" where
  "ValueKind x = (case x of None \<Rightarrow> KInvalid | Some v \<Rightarrow> Kind (typeOf v))"

text \<open>\<^verbatim>\<open>Value.IsNil()\<close> panics unless the kind is one that has a nil.\<close>

fun IsNil :: "gval option \<Rightarrow> bool exec" where
  "IsNil None = Panics (Msg ''reflect: call of reflect.Value.IsNil on zero Value'')"
| "IsNil (Some VNilIface) = Returns True"
| "IsNil (Some (VIface v)) = Returns False"
| "IsNil (Some (VNilPtr t)) = Returns True"
| "IsNil (Some (VPtr v)) = Returns False"
| "IsNil (Some (VNilSlice t)) = Returns True"
| "IsNil (Some (VSlice t xs)) = Returns False"
| "IsNil (Some (VNilMap k e)) = Returns True"
| "IsNil (Some (VMap k e m)) = Returns False"
| "IsNil (Some v) = Panics (Msg ''reflect: call of reflect.Value.IsNil on a value that has no nil'')"

text \<open>\<^verbatim>\<open>Value.Interface()\<close> of an interface-typed field is the value it holds.\<close>

fun Interface_of :: "gval \<Rightarrow> gval" where
  "Interface_of (VIface v) = v"
| "Interface_of v = v"

text \<open>Storing into an \<^verbatim>\<open>interface{}\<close> location; SQL NULL is the nil interface.\<close>

fun boxed :: "gval \<Rightarrow> gval" where
  "boxed VNilIface = VNilIface"
| "boxed (VIface v) = VIface v"
| "boxed v = VIface v"

text \<open>\<^verbatim>\<open>reflect.Indirect\<close>: the pointee of a pointer, the value itself otherwise.\<close>

fun Indirect :: "gval \<Rightarrow> gval option" where
  "Indirect (VPtr v) = Some v"
| "Indirect (VNilPtr t) = None"
| "Indirect v = Some v"



section \<open>The cursor (\<^verbatim>\<open>*sql.Rows\<close>) and the driver\<close>

text \<open>
  \<^verbatim>\<open>database/sql\<close> is outside the repository. Its cursor is modelled by what the package
  can observe of it: the answer of \<^verbatim>\<open>Columns()\<close>, the rows that \<^verbatim>\<open>Next()\<close> will still
  deliver, the row delivered last, the error \<^verbatim>\<open>Err()\<close> reports once \<^verbatim>\<open>Next()\<close> has
  returned false, and whether the cursor is closed.
\<close>

record sql_Rows =
  cols :: "error + string list"
  pending :: "gval list list"
  lastcols :: "gval list option"
  lasterr :: "error option"
  closed :: bool

definition Columns :: "sql_Rows \<Rightarrow> error + string list" where
  "Columns rs =
     (if closed rs
      then Inl (case lasterr rs of Some e \<Rightarrow> e | None \<Rightarrow> ExternalError ''sql: Rows are closed'')
      else cols rs)"

definition Next :: "sql_Rows \<Rightarrow> bool \<times> sql_Rows" where
  "Next rs =
     (if closed rs then (False, rs)
      else (case pending rs of
              [] \<Rightarrow> (False, rs\<lparr>lastcols := None, closed := True\<rparr>)
            | r # rest \<Rightarrow> (True, rs\<lparr>pending := rest, lastcols := Some r\<rparr>)))"

definition Err :: "sql_Rows \<Rightarrow> error option" where
  "Err rs = lasterr rs"

definition Close :: "sql_Rows \<Rightarrow> sql_Rows" where
  "Close rs = rs\<lparr>closed := True\<rparr>"

text \<open>
  \<^verbatim>\<open>Rows.Scan(dest...)\<close> converts the cells of the current row into the destinations, one
  after the other, and stops at the first cell that does not convert. The conversion of a
  driver value into a destination of a given type is a parameter \<open>conv\<close> of the model;
  a destination of type \<^verbatim>\<open>*interface{}\<close> takes any cell as it is. The result is the list
  of the values written and the error.
\<close>

type_synonym converter = "gtype \<Rightarrow> gval \<Rightarrow> error + gval"

definition convertAssign :: "converter \<Rightarrow> gtype \<Rightarrow> gval \<Rightarrow> error + gval" where
  "convertAssign conv t c = (if t = TInterface then Inr (boxed c) else conv t c)"

fun convertAssign_all :: "converter \<Rightarrow> gtype list \<Rightarrow> gval list \<Rightarrow> gval list \<times> error option" where
  "convertAssign_all conv (t # ts) (c # cs) =
     (case convertAssign conv t c of
        Inl e \<Rightarrow> ([], Some e)
      | Inr v \<Rightarrow> (let (vs, err) = convertAssign_all conv ts cs in (v # vs, err)))"
| "convertAssign_all conv ts cs = ([], None)"

definition Scan :: "converter \<Rightarrow> sql_Rows \<Rightarrow> gtype list \<Rightarrow> gval list \<times> error option" where
  "Scan conv rs dest =
     (case lastcols rs of
        None \<Rightarrow> ([], Some (ExternalError ''sql: Scan called without calling Next''))
      | Some r \<Rightarrow>
          if length dest \<noteq> length r
          then ([], Some (ExternalError ''sql: wrong number of destination arguments in Scan''))
          else convertAssign_all conv dest r)"

section \<open>Type descriptors (\<^verbatim>\<open>reflectx\<close>)\<close>

text \<open>
  The package \<^verbatim>\<open>reflectx\<close> belongs to the repository but is not among its source files.
  \<^verbatim>\<open>FieldInfo\<close> has the fields the source reads. The descriptor of a type,
  \<^verbatim>\<open>mapper().TypeMap(t).Names\<close>, is a parameter \<open>tm\<close> of the operations below: for each
  type the list of its entries, in the order in which a \<^verbatim>\<open>range\<close> over the Go map
  visits them.
\<close>

record FieldInfo =
  Index :: "nat list"
  Path :: string
  Name :: string
  Options :: "(string \<times> string) list"
  Zero :: gval

type_synonym typemap = "gtype \<Rightarrow> (string \<times> FieldInfo) list"

text \<open>
  Modelled from the spec: \<^verbatim>\<open>reflectx.FieldByIndexes\<close> and
  \<^verbatim>\<open>reflectx.FieldByIndexesReadOnly\<close> are missing from the sources. A field path is
  a sequence of indices locating the field through possibly nested structures, from the
  value's root; a pointer to a structure on the way is followed, and on the writing side
  a nil one is allocated. \<open>field_type\<close> is the type of the slot a path leads to,
  \<open>store_field\<close> writes the slot, \<open>load_field\<close> reads it. \<open>None\<close> stands for the
  panic of \<^verbatim>\<open>reflect\<close> on a path that does not fit the value.
\<close>

fun field_type :: "gtype \<Rightarrow> nat list \<Rightarrow> gtype option" where
  "field_type t [] = Some t"
| "field_type (TStruct n ts) (i # is) = (if i < length ts then field_type (ts ! i) is else None)"
| "field_type (TPtr (TStruct n ts)) (i # is) = field_type (TStruct n ts) (i # is)"
| "field_type t (i # is) = None"

fun store_field :: "gval \<Rightarrow> nat list \<Rightarrow> gval \<Rightarrow> gval option" where
  "store_field x [] v = Some v"
| "store_field (VStruct n fs) (i # is) v =
     (if i < length fs
      then map_option (\<lambda>f. VStruct n (fs[i := f])) (store_field (fs ! i) is v)
      else None)"
| "store_field (VPtr (VStruct n fs)) (i # is) v =
     map_option VPtr (store_field (VStruct n fs) (i # is) v)"
| "store_field (VNilPtr (TStruct n ts)) (i # is) v =
     (if i < length ts
      then map_option (\<lambda>f. VPtr (VStruct n ((map reflect_Zero ts)[i := f])))
             (store_field (reflect_Zero (ts ! i)) is v)
      else None)"
| "store_field x (i # is) v = None"

fun load_field :: "gval \<Rightarrow> nat list \<Rightarrow> gval option" where
  "load_field x [] = Some x"
| "load_field (VStruct n fs) (i # is) = (if i < length fs then load_field (fs ! i) is else None)"
| "load_field (VPtr (VStruct n fs)) (i # is) = load_field (VStruct n fs) (i # is)"
| "load_field x (i # is) = None"

definition has_option :: "FieldInfo \<Rightarrow> string \<Rightarrow> bool" where
  "has_option fi opt = (map_of (Options fi) opt \<noteq> None)"


section \<open>Scanning: \<^verbatim>\<open>reset\<close>, \<^verbatim>\<open>fetchResult\<close>, \<^verbatim>\<open>fetchRow\<close>, \<^verbatim>\<open>fetchRows\<close>\<close>

text \<open>
  \<^verbatim>\<open>reset(data)\<close> (\<^verbatim>\<open>src/sqlx_helper.go\<close>) overwrites what \<open>data\<close> points to: a slice
  with \<^verbatim>\<open>reflect.MakeSlice(t, 0, v.Cap())\<close>, anything else with \<^verbatim>\<open>reflect.Zero(t)\<close>.
  The model returns the error (always nil) and the argument with its new pointee.
  \<^verbatim>\<open>Elem()\<close> or \<^verbatim>\<open>Type()\<close> panic when \<open>data\<close> is not a non-nil pointer.
\<close>

fun reset_value :: "gval \<Rightarrow> gval" where
  "reset_value (VSlice t xs) = VSlice t []"
| "reset_value (VNilSlice t) = VSlice t []"
| "reset_value v = reflect_Zero (typeOf v)"

fun reset :: "gval option \<Rightarrow> (error option \<times> gval option) exec" where
  "reset (Some (VPtr v)) = Returns (None, Some (VPtr (reset_value v)))"
| "reset data = Panics (Msg ''reflect: Elem or Type of a value that is not a non-nil pointer'')"

text \<open>
  The destinations \<^verbatim>\<open>fetchResult\<close> hands to \<^verbatim>\<open>Scan\<close> for a struct: for a column the
  descriptor does not know, a throwaway \<^verbatim>\<open>new(interface{})\<close>; otherwise the address of
  the field. The loop stops with \<^verbatim>\<open>errDeprecatedJSONBTag\<close> at the first column whose
  field carries the option \<^verbatim>\<open>jsonb\<close>.
\<close>

datatype slot = Discard | FieldSlot "nat list" gtype

fun slot_type :: "slot \<Rightarrow> gtype" where
  "slot_type Discard = TInterface"
| "slot_type (FieldSlot p t) = t"

fun bind_columns :: "(string \<times> FieldInfo) list \<Rightarrow> gtype \<Rightarrow> string list \<Rightarrow> (slot list \<times> error option) exec" where
  "bind_columns fieldMap objT [] = Returns ([], None)"
| "bind_columns fieldMap objT (k # ks) =
     (case map_of fieldMap k of
        None \<Rightarrow>
          (case bind_columns fieldMap objT ks of
             Panics m \<Rightarrow> Panics m
           | Returns (slots, err) \<Rightarrow> Returns (Discard # slots, err))
      | Some fi \<Rightarrow>
          if has_option fi ''jsonb'' then Returns ([], Some errDeprecatedJSONBTag)
          else (case field_type objT (Index fi) of
                  None \<Rightarrow> Panics (Msg ''reflect: Field index out of range'')
                | Some t \<Rightarrow>
                    (case bind_columns fieldMap objT ks of
                       Panics m \<Rightarrow> Panics m
                     | Returns (slots, err) \<Rightarrow> Returns (FieldSlot (Index fi) t # slots, err))))"

fun store_slots :: "gval \<Rightarrow> slot list \<Rightarrow> gval list \<Rightarrow> gval" where
  "store_slots s (Discard # ss) (v # vs) = store_slots s ss vs"
| "store_slots s (FieldSlot p t # ss) (v # vs) =
     store_slots (case store_field s p v of None \<Rightarrow> s | Some s' \<Rightarrow> s') ss vs"
| "store_slots s ss vs = s"

text \<open>The struct case of \<^verbatim>\<open>fetchResult\<close>; \<open>item\<close> is \<^verbatim>\<open>reflect.New(objT)\<close>.\<close>

definition fetchResult_Struct ::
  "typemap \<Rightarrow> converter \<Rightarrow> sql_Rows \<Rightarrow> gtype \<Rightarrow> gtype \<Rightarrow> string list \<Rightarrow> (gval option \<times> error option) exec" where
  "fetchResult_Struct tm conv rows itemT objT columns =
     (case bind_columns (tm itemT) objT columns of
        Panics m \<Rightarrow> Panics m
      | Returns (slots, Some e) \<Rightarrow> Returns (Some (VPtr (reflect_Zero objT)), Some e)
      | Returns (slots, None) \<Rightarrow>
          (let (vals, err) = Scan conv rows (map slot_type slots)
           in Returns (Some (VPtr (store_slots (reflect_Zero objT) slots vals)), err)))"

text \<open>
  The map case: the columns are read again from the cursor, every cell is scanned into a
  new value of the map's element type, and every column is stored under its name.
  \<^verbatim>\<open>SetMapIndex\<close> panics when a string is not assignable to the key type.
\<close>

fun SetMapIndex :: "(gval \<times> gval) list \<Rightarrow> gval \<Rightarrow> gval \<Rightarrow> (gval \<times> gval) list" where
  "SetMapIndex [] k v = [(k, v)]"
| "SetMapIndex ((k', v') # m) k v =
     (if k' = k then (k, v) # m else (k', v') # SetMapIndex m k v)"

fun string_key :: "gtype \<Rightarrow> (string \<Rightarrow> gval) option" where
  "string_key TString = Some VString"
| "string_key TInterface = Some (\<lambda>c. VIface (VString c))"
| "string_key t = None"

fun fetchResult_Map :: "converter \<Rightarrow> sql_Rows \<Rightarrow> gtype \<Rightarrow> (gval option \<times> error option) exec" where
  "fetchResult_Map conv rows (TMap kT eT) =
     (case Columns rows of
        Inl e \<Rightarrow> Returns (Some (VMap kT eT []), Some e)
      | Inr columns \<Rightarrow>
          (let (vals, err) = Scan conv rows (replicate (length columns) eT)
           in case err of
                Some e \<Rightarrow> Returns (Some (VMap kT eT []), Some e)
              | None \<Rightarrow>
                  if columns = [] then Returns (Some (VMap kT eT []), None)
                  else (case string_key kT of
                          None \<Rightarrow> Panics (Msg ''reflect.Value.SetMapIndex: string is not assignable to the key type'')
                        | Some mk \<Rightarrow>
                            Returns (Some (VMap kT eT
                                (fold (\<lambda>(c, v) m. SetMapIndex m (mk c) v) (zip columns vals) [])), None))))"
| "fetchResult_Map conv rows t = Returns (None, Some ErrExpectingMapOrStruct)"

text \<open>
  \<^verbatim>\<open>fetchResult(rows, itemT, columns)\<close> returns the item (the invalid \<^verbatim>\<open>Value\<close>, here
  \<open>None\<close>, when the type is refused) and the error. It consults neither a safety flag nor
  the number of columns.
\<close>

definition fetchResult ::
  "typemap \<Rightarrow> converter \<Rightarrow> sql_Rows \<Rightarrow> gtype \<Rightarrow> string list \<Rightarrow> (gval option \<times> error option) exec" where
  "fetchResult tm conv rows itemT columns =
     (case Kind itemT of
        KMap \<Rightarrow> fetchResult_Map conv rows itemT
      | KStruct \<Rightarrow> fetchResult_Struct tm conv rows itemT itemT columns
      | KPtr \<Rightarrow>
          (case Elem itemT of
             None \<Rightarrow> Returns (None, Some ErrExpectingMapOrStruct)
           | Some objT \<Rightarrow>
               if Kind objT \<noteq> KStruct then Returns (None, Some ErrExpectingMapOrStruct)
               else fetchResult_Struct tm conv rows itemT objT columns)
      | _ \<Rightarrow> Returns (None, Some ErrExpectingMapOrStruct))"

text \<open>
  \<^verbatim>\<open>fetchRow(rows, dst)\<close>. The model returns the error, the destination as the call
  leaves it, and the cursor.
\<close>

definition fetchRow ::
  "typemap \<Rightarrow> converter \<Rightarrow> sql_Rows \<Rightarrow> gval option \<Rightarrow> (error option \<times> gval option \<times> sql_Rows) exec" where
  "fetchRow tm conv rows dst =
     (case IsNil dst of
        Panics m \<Rightarrow> Panics m
      | Returns isnil \<Rightarrow>
          if isnil \<or> ValueKind dst \<noteq> KPtr then Returns (Some ErrExpectingPointer, dst, rows)
          else (case dst of
                  Some (VPtr itemV) \<Rightarrow>
                    (case Columns rows of
                       Inl e \<Rightarrow> Returns (Some e, dst, rows)
                     | Inr columns \<Rightarrow>
                         (case reset dst of
                            Panics m \<Rightarrow> Panics m
                          | Returns (e0, dst1) \<Rightarrow>
                              (let (next, rows1) = Next rows
                               in if \<not> next
                                  then (case Err rows1 of
                                          Some e \<Rightarrow> Returns (Some e, dst1, rows1)
                                        | None \<Rightarrow> Returns (Some ErrNoMoreRows, dst1, rows1))
                                  else (let itemT = typeOf itemV
                                        in case fetchResult tm conv rows1 itemT columns of
                                             Panics m \<Rightarrow> Panics m
                                           | Returns (item, Some e) \<Rightarrow> Returns (Some e, dst1, rows1)
                                           | Returns (None, None) \<Rightarrow>
                                               Panics (Msg ''reflect: Set of the invalid Value'')
                                           | Returns (Some item, None) \<Rightarrow>
                                               if Kind itemT = KPtr
                                               then Returns (None, Some (VPtr item), rows1)
                                               else (case Indirect item of
                                                       None \<Rightarrow> Panics (Msg ''reflect: Set of the invalid Value'')
                                                     | Some v \<Rightarrow> Returns (None, Some (VPtr v), rows1))))))
                | _ \<Rightarrow> Returns (Some ErrExpectingPointer, dst, rows)))"

text \<open>
  The loop of \<^verbatim>\<open>fetchRows\<close>: \<open>slicev\<close> is the slice built so far. It returns the slice,
  the error of \<^verbatim>\<open>fetchResult\<close> that ended it early, and the cursor.
\<close>

fun Append :: "gval \<Rightarrow> gval \<Rightarrow> gval exec" where
  "Append (VSlice t xs) x = Returns (VSlice t (xs @ [x]))"
| "Append (VNilSlice t) x = Returns (VSlice t [x])"
| "Append s x = Panics (Msg ''reflect: call of reflect.Append on a value that is not a slice'')"

function fetchRows_loop ::
  "typemap \<Rightarrow> converter \<Rightarrow> gtype \<Rightarrow> string list \<Rightarrow> sql_Rows \<Rightarrow> gval \<Rightarrow> (gval \<times> error option \<times> sql_Rows) exec" where
  "fetchRows_loop tm conv itemT columns rows slicev =
     (if \<not> fst (Next rows) then Returns (slicev, None, snd (Next rows))
      else (case fetchResult tm conv (snd (Next rows)) itemT columns of
              Panics m \<Rightarrow> Panics m
            | Returns (item, Some e) \<Rightarrow> Returns (slicev, Some e, snd (Next rows))
            | Returns (None, None) \<Rightarrow> Panics (Msg ''reflect: Append of the invalid Value'')
            | Returns (Some item, None) \<Rightarrow>
                (case (if Kind itemT = KPtr then Some item else Indirect item) of
                   None \<Rightarrow> Panics (Msg ''reflect: Append of the invalid Value'')
                 | Some x \<Rightarrow>
                     (case Append slicev x of
                        Panics m \<Rightarrow> Panics m
                      | Returns slicev' \<Rightarrow>
                          fetchRows_loop tm conv itemT columns (snd (Next rows)) slicev'))))"
  by pat_completeness auto
termination
  by (relation "measure (\<lambda>(tm, conv, itemT, columns, rows, slicev). length (pending rows))")
     (auto simp: Next_def split: if_splits list.splits)

text \<open>
  \<^verbatim>\<open>fetchRows(rows, dst)\<close>; \<^verbatim>\<open>defer rows.Close()\<close> closes the cursor on every return.
  The third check can no longer fail where it stands; it is kept as written. The source
  takes \<^verbatim>\<open>slicev := dstv.Elem()\<close> before it calls \<^verbatim>\<open>reset(dst)\<close>; that \<^verbatim>\<open>Value\<close> is
  the addressable element of the pointer, so the loop starts from the slice that
  \<^verbatim>\<open>reset\<close> wrote. An error of \<^verbatim>\<open>fetchResult\<close> returns before
  \<^verbatim>\<open>dstv.Elem().Set(slicev)\<close>, and the destination stays as \<^verbatim>\<open>reset\<close> left it.
\<close>

definition fetchRows ::
  "typemap \<Rightarrow> converter \<Rightarrow> sql_Rows \<Rightarrow> gval option \<Rightarrow> (error option \<times> gval option \<times> sql_Rows) exec" where
  "fetchRows tm conv rows dst =
     (case IsNil dst of
        Panics m \<Rightarrow> Panics m
      | Returns isnil \<Rightarrow>
          if isnil \<or> ValueKind dst \<noteq> KPtr then Returns (Some ErrExpectingPointer, dst, Close rows)
          else (case dst of
                  Some (VPtr sl) \<Rightarrow>
                    if Kind (typeOf sl) \<noteq> KSlice
                    then Returns (Some ErrExpectingSlicePointer, dst, Close rows)
                    else if ValueKind dst \<noteq> KPtr \<or> Kind (typeOf sl) \<noteq> KSlice \<or> isnil
                    then Returns (Some ErrExpectingSliceMapStruct, dst, Close rows)
                    else (case Columns rows of
                            Inl e \<Rightarrow> Returns (Some e, dst, Close rows)
                          | Inr columns \<Rightarrow>
                              (case Elem (typeOf sl) of
                                 None \<Rightarrow> Panics (Msg ''reflect: Elem of invalid type'')
                               | Some itemT \<Rightarrow>
                                   (case reset dst of
                                      Panics m \<Rightarrow> Panics m
                                    | Returns (e0, dst1) \<Rightarrow>
                                        (case fetchRows_loop tm conv itemT columns rows (reset_value sl) of
                                           Panics m \<Rightarrow> Panics m
                                         | Returns (slicev, Some e, rows1) \<Rightarrow>
                                             Returns (Some e, dst1, Close rows1)
                                         | Returns (slicev, None, rows1) \<Rightarrow>
                                             Returns (Err rows1, Some (VPtr slicev), Close rows1)))))
                | _ \<Rightarrow> Returns (Some ErrExpectingPointer, dst, Close rows)))"


section \<open>The wrappers and the safety flag\<close>

text \<open>
  \<^verbatim>\<open>NameMapper\<close> is a variable of function type, and \<^verbatim>\<open>mapper()\<close> compares
  \<^verbatim>\<open>reflect.ValueOf(NameMapper)\<close> with a stored one: the comparison sees which function
  it is, so a function value is modelled by its identity.
\<close>

datatype func = strings_ToLower | UserFunc nat

text \<open>
  Modelled from the spec: \<^verbatim>\<open>reflectx.Mapper\<close> and \<^verbatim>\<open>reflectx.NewMapperFunc\<close> are
  missing from the sources. A mapper is a cache of descriptors built for one tag name and
  one fold function; \<^verbatim>\<open>NewMapperFunc\<close> allocates a new one, which \<open>mapper_addr\<close>
  tells apart from every mapper allocated before.
\<close>

record Mapper =
  mapper_addr :: nat
  tagName :: string
  mapFunc :: func

text \<open>The package variables \<^verbatim>\<open>NameMapper\<close>, \<^verbatim>\<open>origMapper\<close> and \<^verbatim>\<open>mpr\<close>, and the heap.\<close>

record pkg_state =
  NameMapper :: func
  origMapper :: func
  mpr :: "Mapper option"
  allocated :: nat

definition init_state :: pkg_state where
  "init_state = \<lparr>NameMapper = strings_ToLower, origMapper = strings_ToLower, mpr = None, allocated = 0\<rparr>"

text \<open>
  Modelled from the spec: \<^verbatim>\<open>reflectx.NewMapperFunc(tag, f)\<close>, a new mapper for the tag
  name and the fold function, at the next free address of the heap.
\<close>

definition NewMapperFunc :: "string \<Rightarrow> func \<Rightarrow> pkg_state \<Rightarrow> Mapper \<times> pkg_state" where
  "NewMapperFunc tag f st =
     (\<lparr>mapper_addr = allocated st, tagName = tag, mapFunc = f\<rparr>, st\<lparr>allocated := Suc (allocated st)\<rparr>)"

text \<open>\<^verbatim>\<open>mapper()\<close> (\<^verbatim>\<open>src/sqlx_helper.go\<close>): the mapper it returns and the new state.\<close>

definition mapper :: "pkg_state \<Rightarrow> Mapper \<times> pkg_state" where
  "mapper st =
     (case mpr st of
        None \<Rightarrow>
          (let (m, st1) = NewMapperFunc ''db'' (NameMapper st) st
           in (m, st1\<lparr>mpr := Some m\<rparr>))
      | Some m0 \<Rightarrow>
          if origMapper st \<noteq> NameMapper st
          then (let (m, st1) = NewMapperFunc ''db'' (NameMapper st) st
                in (m, st1\<lparr>mpr := Some m, origMapper := NameMapper st\<rparr>))
          else (m0, st))"

text \<open>
  The handles of \<^verbatim>\<open>database/sql\<close>, by the answers the package gets from them.
\<close>

record sql_Result =
  LastInsertId :: int
  RowsAffected :: int

record sql_Stmt =
  stmt_handle :: nat

record sql_Tx =
  tx_Prepare :: "string \<Rightarrow> error + sql_Stmt"
  tx_Stmt :: "sql_Stmt \<Rightarrow> sql_Stmt"
  tx_Exec :: "string \<Rightarrow> gval list \<Rightarrow> error + sql_Result"

record sql_DB =
  db_Begin :: "error + sql_Tx"
  db_Prepare :: "string \<Rightarrow> error + sql_Stmt"
  db_Exec :: "string \<Rightarrow> gval list \<Rightarrow> error + sql_Result"

text \<open>
  The wrappers \<^verbatim>\<open>DB\<close> (\<^verbatim>\<open>src/sqlx_db.go\<close>), \<^verbatim>\<open>Tx\<close> and \<^verbatim>\<open>Stmt\<close>
  (\<^verbatim>\<open>src/Stmt.go\<close>), and \<^verbatim>\<open>Rows\<close> with the fields its literals in the source set. The
  field \<^verbatim>\<open>unsafe\<close> is the safety flag.
\<close>

record DB =
  db_sql :: sql_DB
  db_driverName :: string
  db_unsafe :: bool
  db_Mapper :: Mapper

record Tx =
  tx_sql :: sql_Tx
  tx_driverName :: string
  tx_unsafe :: bool
  tx_Mapper :: Mapper

record Stmt =
  stmt_sql :: sql_Stmt
  stmt_unsafe :: bool
  stmt_Mapper :: Mapper

record Rows =
  rows_sql :: sql_Rows
  rows_unsafe :: bool
  rows_Mapper :: Mapper

text \<open>
  \<^verbatim>\<open>Row\<close> and \<^verbatim>\<open>NamedStmt\<close> are declared outside the source files; they have the
  fields that the literals and the selections of the source name.
\<close>

record Row =
  row_rows :: "sql_Rows option"
  row_err :: "error option"
  row_unsafe :: bool
  row_Mapper :: Mapper

record NamedStmt =
  QueryString :: string
  Params :: "string list"
  ns_Stmt :: Stmt

text \<open>
  The dynamic types on which \<^verbatim>\<open>isUnsafe\<close>, \<^verbatim>\<open>mapperFor\<close> and \<^verbatim>\<open>Tx.Stmtx\<close> switch. A
  value and a pointer to it take the same branch; \<open>I_other\<close> is any type the switches
  do not name.
\<close>

datatype iface =
    I_Row Row
  | I_Rows Rows
  | I_NamedStmt NamedStmt
  | I_Stmt Stmt
  | I_qStmt Stmt
  | I_DB DB
  | I_Tx Tx
  | I_sqlRows sql_Rows
  | I_sqlStmt sql_Stmt
  | I_other

fun isUnsafe :: "iface \<Rightarrow> bool" where
  "isUnsafe (I_Row v) = row_unsafe v"
| "isUnsafe (I_Rows v) = rows_unsafe v"
| "isUnsafe (I_NamedStmt v) = stmt_unsafe (ns_Stmt v)"
| "isUnsafe (I_Stmt v) = stmt_unsafe v"
| "isUnsafe (I_qStmt v) = stmt_unsafe v"
| "isUnsafe (I_DB v) = db_unsafe v"
| "isUnsafe (I_Tx v) = tx_unsafe v"
| "isUnsafe (I_sqlRows v) = False"
| "isUnsafe i = False"

fun mapperFor :: "iface \<Rightarrow> pkg_state \<Rightarrow> Mapper \<times> pkg_state" where
  "mapperFor (I_DB i) st = (db_Mapper i, st)"
| "mapperFor (I_Tx i) st = (tx_Mapper i, st)"
| "mapperFor i st = mapper st"

definition DB_Unsafe :: "DB \<Rightarrow> DB" where
  "DB_Unsafe db = \<lparr>db_sql = db_sql db, db_driverName = db_driverName db, db_unsafe = True, db_Mapper = db_Mapper db\<rparr>"

definition Tx_Unsafe :: "Tx \<Rightarrow> Tx" where
  "Tx_Unsafe tx = \<lparr>tx_sql = tx_sql tx, tx_driverName = tx_driverName tx, tx_unsafe = True, tx_Mapper = tx_Mapper tx\<rparr>"

definition Stmt_Unsafe :: "Stmt \<Rightarrow> Stmt" where
  "Stmt_Unsafe s = \<lparr>stmt_sql = stmt_sql s, stmt_unsafe = True, stmt_Mapper = stmt_Mapper s\<rparr>"

text \<open>\<^verbatim>\<open>DB.Beginx\<close>.\<close>

definition Beginx :: "DB \<Rightarrow> Tx option \<times> error option" where
  "Beginx db =
     (case db_Begin (db_sql db) of
        Inl err \<Rightarrow> (None, Some err)
      | Inr tx \<Rightarrow>
          (Some \<lparr>tx_sql = tx, tx_driverName = db_driverName db, tx_unsafe = db_unsafe db,
                 tx_Mapper = db_Mapper db\<rparr>, None))"

text \<open>
  \<^verbatim>\<open>Preparex(p, query)\<close> (\<^verbatim>\<open>src/sqlx_helper.go\<close>); a \<^verbatim>\<open>Preparer\<close> is a \<^verbatim>\<open>*DB\<close>, a
  \<^verbatim>\<open>*Tx\<close>, or a plain \<^verbatim>\<open>*sql.DB\<close> or \<^verbatim>\<open>*sql.Tx\<close>. \<^verbatim>\<open>DB.Preparex\<close> and
  \<^verbatim>\<open>Tx.Preparex\<close> call it with the receiver.
\<close>

datatype preparer = P_DB DB | P_Tx Tx | P_sqlDB sql_DB | P_sqlTx sql_Tx

fun Prepare :: "preparer \<Rightarrow> string \<Rightarrow> error + sql_Stmt" where
  "Prepare (P_DB db) q = db_Prepare (db_sql db) q"
| "Prepare (P_Tx tx) q = tx_Prepare (tx_sql tx) q"
| "Prepare (P_sqlDB d) q = db_Prepare d q"
| "Prepare (P_sqlTx t) q = tx_Prepare t q"

fun as_iface :: "preparer \<Rightarrow> iface" where
  "as_iface (P_DB db) = I_DB db"
| "as_iface (P_Tx tx) = I_Tx tx"
| "as_iface p = I_other"

definition Preparex :: "preparer \<Rightarrow> string \<Rightarrow> pkg_state \<Rightarrow> (Stmt option \<times> error option) \<times> pkg_state" where
  "Preparex p query st =
     (case Prepare p query of
        Inl err \<Rightarrow> ((None, Some err), st)
      | Inr s \<Rightarrow>
          (let (m, st1) = mapperFor (as_iface p) st
           in ((Some \<lparr>stmt_sql = s, stmt_unsafe = isUnsafe (as_iface p), stmt_Mapper = m\<rparr>, None), st1)))"

definition DB_Preparex :: "DB \<Rightarrow> string \<Rightarrow> pkg_state \<Rightarrow> (Stmt option \<times> error option) \<times> pkg_state" where
  "DB_Preparex db query st = Preparex (P_DB db) query st"

definition Tx_Preparex :: "Tx \<Rightarrow> string \<Rightarrow> pkg_state \<Rightarrow> (Stmt option \<times> error option) \<times> pkg_state" where
  "Tx_Preparex tx query st = Preparex (P_Tx tx) query st"

text \<open>
  \<^verbatim>\<open>Tx.Stmtx(stmt)\<close>: the literal it returns sets \<^verbatim>\<open>Stmt\<close> and \<^verbatim>\<open>Mapper\<close> only, so
  \<^verbatim>\<open>unsafe\<close> has the zero value of \<^verbatim>\<open>bool\<close>.
\<close>

fun Stmtx :: "Tx \<Rightarrow> iface \<Rightarrow> Stmt exec" where
  "Stmtx tx (I_Stmt v) =
     Returns \<lparr>stmt_sql = tx_Stmt (tx_sql tx) (stmt_sql v), stmt_unsafe = False, stmt_Mapper = tx_Mapper tx\<rparr>"
| "Stmtx tx (I_sqlStmt v) =
     Returns \<lparr>stmt_sql = tx_Stmt (tx_sql tx) v, stmt_unsafe = False, stmt_Mapper = tx_Mapper tx\<rparr>"
| "Stmtx tx stmt = Panics (Msg ''non-statement type passed to Stmtx'')"

section \<open>\<^verbatim>\<open>scanAll\<close>, \<^verbatim>\<open>MustExec\<close> and \<^verbatim>\<open>insertTable\<close>\<close>

text \<open>
  \<^verbatim>\<open>scanAll(rows, dest, structOnly)\<close> declares \<^verbatim>\<open>var v, vp reflect.Value\<close> and, after the
  two checks of \<open>dest\<close>, evaluates \<^verbatim>\<open>v.Elem().Kind()\<close> on the \<open>v\<close> it never assigned:
  \<^verbatim>\<open>Elem\<close> of the invalid \<^verbatim>\<open>Value\<close> panics. What follows in the source is not reached: the
  calls of \<^verbatim>\<open>fetchRows\<close> and \<^verbatim>\<open>fetchRow\<close>, and behind the unconditional
  \<^verbatim>\<open>return fetchRow(rows.Rows, dest)\<close> the older body with the check of the column count
  and the check of \<^verbatim>\<open>missingFields\<close> against \<^verbatim>\<open>isUnsafe(rows)\<close>.
\<close>

definition scanAll :: "Rows \<Rightarrow> gval option \<Rightarrow> bool \<Rightarrow> error option exec" where
  "scanAll rows dest structOnly =
     (if ValueKind dest \<noteq> KPtr
      then Returns (Some (ErrorString ''must pass a pointer, not a value, to StructScan destination''))
      else (case IsNil dest of
              Panics m \<Rightarrow> Panics m
            | Returns isnil \<Rightarrow>
                if isnil then Returns (Some (ErrorString ''nil pointer passed to StructScan destination''))
                else Panics (Msg ''reflect: call of reflect.Value.Elem on zero Value'')))"

text \<open>\<^verbatim>\<open>missingFields\<close>: the index of the first empty traversal and an error, or 0 and nil.\<close>

fun missingFields_from :: "nat \<Rightarrow> nat list list \<Rightarrow> nat \<times> error option" where
  "missingFields_from i [] = (0, None)"
| "missingFields_from i (t # ts) =
     (if length t = 0 then (i, Some (ErrorString ''missing field'')) else missingFields_from (Suc i) ts)"

definition missingFields :: "nat list list \<Rightarrow> nat \<times> error option" where
  "missingFields transversals = missingFields_from 0 transversals"

text \<open>\<^verbatim>\<open>MustExec(e, query, args...)\<close>; the \<^verbatim>\<open>Execer\<close> is given by its \<^verbatim>\<open>Exec\<close>.\<close>

definition MustExec :: "(string \<Rightarrow> gval list \<Rightarrow> error + sql_Result) \<Rightarrow> string \<Rightarrow> gval list \<Rightarrow> sql_Result exec" where
  "MustExec e query args =
     (case e query args of
        Inl err \<Rightarrow> Panics (PanicErr err)
      | Inr res \<Rightarrow> Returns res)"

fun Join :: "string list \<Rightarrow> string \<Rightarrow> string" where
  "Join [] sep = []"
| "Join [x] sep = x"
| "Join (x # y # ys) sep = x @ sep @ Join (y # ys) sep"

definition Repeat :: "string \<Rightarrow> nat \<Rightarrow> string" where
  "Repeat s n = concat (replicate n s)"

text \<open>
  \<^verbatim>\<open>DB.insertTable\<close>: the slice expression \<^verbatim>\<open>placeholders[:len(placeholders)-1]\<close> panics
  on the empty string; the statement is run by \<^verbatim>\<open>MustExec\<close>, and the error returned is
  always nil. The line printed to standard output is left out.
\<close>

definition insertTable :: "DB \<Rightarrow> string \<Rightarrow> string list \<Rightarrow> gval list \<Rightarrow> (sql_Result \<times> error option) exec" where
  "insertTable db tableName columnNames columnValues =
     (let names = Join columnNames '','';
          placeholders = Repeat ''?,'' (length columnNames)
      in if length placeholders = 0 then Panics (Msg ''slice bounds out of range [:-1]'')
         else (let placeholders' = take (length placeholders - 1) placeholders;
                   query = ''insert into '' @ tableName @ ''('' @ names @ '') values('' @ placeholders' @ '')''
               in case MustExec (db_Exec (db_sql db)) query columnValues of
                    Panics m \<Rightarrow> Panics m
                  | Returns res \<Rightarrow> Returns (res, None)))"


section \<open>Marshaling: \<^verbatim>\<open>Map\<close>\<close>

record MapOptions =
  IncludeZeroed :: bool
  IncludeNil :: bool

definition defaultMapOptions :: MapOptions where
  "defaultMapOptions = \<lparr>IncludeZeroed = False, IncludeNil = False\<rparr>"

text \<open>\<^verbatim>\<open>snakeCasedName\<close>: an upper-case letter becomes its lower-case letter, after an
  underscore unless it is the first character.\<close>

definition isUpper :: "char \<Rightarrow> bool" where
  "isUpper chr = (CHR ''A'' \<le> chr \<and> chr \<le> CHR ''Z'')"

definition toLowerChar :: "char \<Rightarrow> char" where
  "toLowerChar chr = char_of (of_char chr + (32::nat))"

fun snakeCasedName_from :: "nat \<Rightarrow> string \<Rightarrow> string" where
  "snakeCasedName_from idx [] = []"
| "snakeCasedName_from idx (chr # rest) =
     (if isUpper chr
      then (if idx > 0 then ''_'' else []) @ toLowerChar chr # snakeCasedName_from (Suc idx) rest
      else chr # snakeCasedName_from (Suc idx) rest)"

definition snakeCasedName :: "string \<Rightarrow> string" where
  "snakeCasedName name = snakeCasedName_from 0 name"

text \<open>
  \<^verbatim>\<open>fieldValue\<close> and its methods \<^verbatim>\<open>Len\<close>, \<^verbatim>\<open>Swap\<close> and \<^verbatim>\<open>Less\<close>
  (\<^verbatim>\<open>src/sqlx_db.go\<close>). Go compares strings byte by byte, as the lexicographic order on
  lists of characters does. \<^verbatim>\<open>Map\<close> grows both slices together, so an index below
  \<open>Len\<close> is in range for both.
\<close>

record fieldValue =
  fv_fields :: "string list"
  fv_values :: "gval list"

definition Len :: "fieldValue \<Rightarrow> nat" where
  "Len fv = length (fv_fields fv)"

definition Swap :: "fieldValue \<Rightarrow> nat \<Rightarrow> nat \<Rightarrow> fieldValue" where
  "Swap fv i j =
     \<lparr>fv_fields = (fv_fields fv)[i := fv_fields fv ! j, j := fv_fields fv ! i],
      fv_values = (fv_values fv)[i := fv_values fv ! j, j := fv_values fv ! i]\<rparr>"

definition Less :: "fieldValue \<Rightarrow> nat \<Rightarrow> nat \<Rightarrow> bool" where
  "Less fv i j = (fv_fields fv ! i < fv_fields fv ! j)"

text \<open>
  \<^verbatim>\<open>sort.Sort\<close> is the Go standard library's. It is modelled by the insertion sort the
  library runs on a short range, which touches the data through \<^verbatim>\<open>Len\<close>, \<^verbatim>\<open>Less\<close> and
  \<^verbatim>\<open>Swap\<close> only:
  \<^verbatim>\<open>for i := a + 1; i < b; i++ { for j := i; j > a && data.Less(j, j-1); j-- { data.Swap(j, j-1) } }\<close>
  The library promises an ascending order by \<^verbatim>\<open>Less\<close> and no more: it is not stable, and
  on a range of more than twelve elements it runs another algorithm. Where two column names
  are equal, the order the model leaves their values in is therefore the code's only on a
  short range. Where the names are distinct, every sort that permutes the pairs into
  ascending order gives the same result (lemma \<open>sorted_pairs_unique\<close>).
\<close>

fun insertionSort_inner :: "fieldValue \<Rightarrow> nat \<Rightarrow> fieldValue" where
  "insertionSort_inner fv 0 = fv"
| "insertionSort_inner fv (Suc j) =
     (if Less fv (Suc j) j then insertionSort_inner (Swap fv (Suc j) j) j else fv)"

function insertionSort_outer :: "fieldValue \<Rightarrow> nat \<Rightarrow> nat \<Rightarrow> fieldValue" where
  "insertionSort_outer fv i b =
     (if i < b then insertionSort_outer (insertionSort_inner fv i) (Suc i) b else fv)"
  by pat_completeness auto
termination
  by (relation "measure (\<lambda>(fv, i, b). b - i)") auto

definition Sort :: "fieldValue \<Rightarrow> fieldValue" where
  "Sort fv = (if Len fv \<le> 1 then fv else insertionSort_outer fv 1 (Len fv))"

text \<open>
  The capabilities of a value are parameters of \<^verbatim>\<open>Map\<close>: \<open>isz v\<close> is \<open>Some b\<close> when
  \<open>v\<close> has the method \<^verbatim>\<open>IsZero()\<close> and it returns \<open>b\<close>; \<open>marsh v\<close> is the result of
  \<^verbatim>\<open>MarshalDB()\<close> when \<open>v\<close> is a \<^verbatim>\<open>db.Marshaler\<close>; \<open>fmtv\<close> is
  \<^verbatim>\<open>fmt.Sprintf("%v", _)\<close>. A type assertion on the nil interface fails.
\<close>

type_synonym zero_check = "gval \<Rightarrow> bool option"
type_synonym marshaler = "gval \<Rightarrow> (gval \<times> error option) option"

definition marshal :: "marshaler \<Rightarrow> gval \<Rightarrow> gval \<times> error option" where
  "marshal marsh v =
     (case (if v = VNilIface then None else marsh v) of
        None \<Rightarrow> (v, None)
      | Some (v', Some err) \<Rightarrow> (VNilIface, Some err)
      | Some (v', None) \<Rightarrow> (v', None))"

fun Len_v :: "gval \<Rightarrow> nat" where
  "Len_v (VSlice t xs) = length xs"
| "Len_v (VArray t xs) = length xs"
| "Len_v v = 0"

text \<open>\<^verbatim>\<open>reflect.DeepEqual\<close> on the values of this model, which hold their pointees.\<close>

definition DeepEqual :: "gval \<Rightarrow> gval \<Rightarrow> bool" where
  "DeepEqual x y = (x = y)"

fun is_nil_ptr :: "gval \<Rightarrow> bool" where
  "is_nil_ptr (VNilPtr t) = True"
| "is_nil_ptr v = False"

text \<open>The three-way test of \<^verbatim>\<open>Map\<close> that sets \<^verbatim>\<open>isZero\<close>.\<close>

definition isZero :: "zero_check \<Rightarrow> FieldInfo \<Rightarrow> gval \<Rightarrow> bool" where
  "isZero isz fi fld =
     (case (if Interface_of fld = VNilIface then None else isz (Interface_of fld)) of
        Some b \<Rightarrow> b
      | None \<Rightarrow>
          if Kind (typeOf fld) = KArray \<or> Kind (typeOf fld) = KSlice then Len_v fld = 0
          else DeepEqual (Interface_of (Zero fi)) (Interface_of fld))"

definition push :: "fieldValue \<Rightarrow> string \<Rightarrow> gval \<Rightarrow> fieldValue" where
  "push fv f v = \<lparr>fv_fields = fv_fields fv @ [f], fv_values = fv_values fv @ [v]\<rparr>"

text \<open>The loop of \<^verbatim>\<open>Map\<close> over the descriptor of a struct.\<close>

fun Map_struct ::
  "zero_check \<Rightarrow> marshaler \<Rightarrow> MapOptions \<Rightarrow> gval \<Rightarrow> (string \<times> FieldInfo) list \<Rightarrow> fieldValue \<Rightarrow> (fieldValue \<times> error option) exec" where
  "Map_struct isz marsh options itemV [] fv = Returns (fv, None)"
| "Map_struct isz marsh options itemV ((k, fi) # rest) fv =
     (let tagOmitEmpty = has_option fi ''omitempty''
      in case load_field itemV (Index fi) of
           None \<Rightarrow> Panics (Msg ''reflect: Field index out of range'')
         | Some fld \<Rightarrow>
             if Kind (typeOf fld) = KPtr \<and> is_nil_ptr fld
             then (if tagOmitEmpty \<and> \<not> IncludeNil options
                   then Map_struct isz marsh options itemV rest fv
                   else Map_struct isz marsh options itemV rest
                          (push fv (Name fi) (if tagOmitEmpty then VString [] else VNilIface)))
             else (let value = Interface_of fld;
                       zero = isZero isz fi fld
                   in if zero \<and> tagOmitEmpty \<and> \<not> IncludeZeroed options
                      then Map_struct isz marsh options itemV rest fv
                      else (case marshal marsh value of
                              (v, Some err) \<Rightarrow> Returns (fv, Some err)
                            | (v, None) \<Rightarrow>
                                Map_struct isz marsh options itemV rest
                                  (push fv (Name fi) (if zero \<and> tagOmitEmpty then VString [] else v)))))"

text \<open>The loop of \<^verbatim>\<open>Map\<close> over the keys of a map.\<close>

fun Map_map ::
  "marshaler \<Rightarrow> (gval \<Rightarrow> string) \<Rightarrow> (gval \<times> gval) list \<Rightarrow> fieldValue \<Rightarrow> fieldValue \<times> error option" where
  "Map_map marsh fmtv [] fv = (fv, None)"
| "Map_map marsh fmtv ((keyV, valv) # rest) fv =
     (case marshal marsh (Interface_of valv) of
        (v, Some err) \<Rightarrow> (fv, Some err)
      | (v, None) \<Rightarrow> Map_map marsh fmtv rest (push fv (fmtv (Interface_of keyV)) v))"

fun MapKeys :: "gval \<Rightarrow> (gval \<times> gval) list" where
  "MapKeys (VMap k e m) = m"
| "MapKeys v = []"

text \<open>
  \<^verbatim>\<open>Map\<close> up to the call of \<^verbatim>\<open>sort.Sort\<close>: the name and the pairs collected, or the
  error. \<^verbatim>\<open>Interface()\<close> of the pointee of a nil pointer panics, and so does \<^verbatim>\<open>Type()\<close>
  when the pointee is a nil interface.
\<close>

definition Map_fields ::
  "typemap \<Rightarrow> zero_check \<Rightarrow> marshaler \<Rightarrow> (gval \<Rightarrow> string) \<Rightarrow> gval \<Rightarrow> MapOptions \<Rightarrow> (string \<times> fieldValue \<times> error option) exec" where
  "Map_fields tm isz marsh fmtv itemV options =
     (let itemT = typeOf itemV;
          name = snakeCasedName (TypeName itemT);
          empty = \<lparr>fv_fields = [], fv_values = []\<rparr>
      in case Kind itemT of
           KStruct \<Rightarrow>
             (case Map_struct isz marsh options itemV (tm itemT) empty of
                Panics m \<Rightarrow> Panics m
              | Returns (fv, Some err) \<Rightarrow> Returns ([], empty, Some err)
              | Returns (fv, None) \<Rightarrow> Returns (name, fv, None))
         | KMap \<Rightarrow>
             (case Map_map marsh fmtv (MapKeys itemV) empty of
                (fv, Some err) \<Rightarrow> Returns ([], empty, Some err)
              | (fv, None) \<Rightarrow> Returns (name, fv, None))
         | _ \<Rightarrow> Returns ([], empty, Some ErrExpectingPointerToEitherMapOrStruct))"

definition Map_collect ::
  "typemap \<Rightarrow> zero_check \<Rightarrow> marshaler \<Rightarrow> (gval \<Rightarrow> string) \<Rightarrow> gval option \<Rightarrow> MapOptions option \<Rightarrow> (string \<times> fieldValue \<times> error option) exec" where
  "Map_collect tm isz marsh fmtv item options =
     (let opts = (case options of None \<Rightarrow> defaultMapOptions | Some opts \<Rightarrow> opts)
      in case item of
           None \<Rightarrow> Returns ([], \<lparr>fv_fields = [], fv_values = []\<rparr>, Some (ErrorString ''is valid: <invalid Value>''))
         | Some v \<Rightarrow>
             if Kind (typeOf v) = KPtr
             then (case v of
                     VPtr p \<Rightarrow>
                       if Interface_of p = VNilIface
                       then Panics (Msg ''reflect: call of reflect.Value.Type on zero Value'')
                       else Map_fields tm isz marsh fmtv (Interface_of p) opts
                   | _ \<Rightarrow> Panics (Msg ''reflect: call of reflect.Value.Interface on zero Value''))
             else Map_fields tm isz marsh fmtv v opts)"

text \<open>\<^verbatim>\<open>Map(item, options)\<close>: the name, the column names, the column fv_values, the error.\<close>

definition Map ::
  "typemap \<Rightarrow> zero_check \<Rightarrow> marshaler \<Rightarrow> (gval \<Rightarrow> string) \<Rightarrow> gval option \<Rightarrow> MapOptions option \<Rightarrow> (string \<times> string list \<times> gval list \<times> error option) exec" where
  "Map tm isz marsh fmtv item options =
     (case Map_collect tm isz marsh fmtv item options of
        Panics m \<Rightarrow> Panics m
      | Returns (name, fv, Some err) \<Rightarrow> Returns ([], [], [], Some err)
      | Returns (name, fv, None) \<Rightarrow> Returns (name, fv_fields (Sort fv), fv_values (Sort fv), None))"

text \<open>\<^verbatim>\<open>DB.Insert(dest)\<close>.\<close>

definition Insert ::
  "typemap \<Rightarrow> zero_check \<Rightarrow> marshaler \<Rightarrow> (gval \<Rightarrow> string) \<Rightarrow> DB \<Rightarrow> gval option \<Rightarrow> (sql_Result option \<times> error option) exec" where
  "Insert tm isz marsh fmtv db dest =
     (case Map tm isz marsh fmtv dest None of
        Panics m \<Rightarrow> Panics m
      | Returns (name, columnNames, columnValues, Some err) \<Rightarrow> Returns (None, Some err)
      | Returns (name, columnNames, columnValues, None) \<Rightarrow>
          (case insertTable db name columnNames columnValues of
             Panics m \<Rightarrow> Panics m
           | Returns (res, err) \<Rightarrow> Returns (Some res, err)))"


section \<open>Example inputs\<close>

text \<open>
  The struct \<^verbatim>\<open>User{Id int `db:"id"`; Name string `db:"name"`}\<close> and its descriptor, which
  a \<^verbatim>\<open>range\<close> happens to visit with \<^verbatim>\<open>name\<close> first; the struct
  \<^verbatim>\<open>Tagged{Tag string `db:"tag,omitempty"`}\<close>; and the struct
  \<^verbatim>\<open>Opt{P *int `db:"p,omitempty"`}\<close>.
\<close>

definition TUser :: gtype where
  "TUser = TStruct ''User'' [TInt, TString]"

definition TTagged :: gtype where
  "TTagged = TStruct ''Tagged'' [TString]"

definition TOpt :: gtype where
  "TOpt = TStruct ''Opt'' [TPtr TInt]"

definition fi_id :: FieldInfo where
  "fi_id = \<lparr>Index = [0], Path = ''id'', Name = ''id'', Options = [], Zero = VInt 0\<rparr>"

definition fi_name :: FieldInfo where
  "fi_name = \<lparr>Index = [1], Path = ''name'', Name = ''name'', Options = [], Zero = VString []\<rparr>"

definition fi_tag :: FieldInfo where
  "fi_tag = \<lparr>Index = [0], Path = ''tag'', Name = ''tag'', Options = [(''omitempty'', [])], Zero = VString []\<rparr>"

definition fi_p :: FieldInfo where
  "fi_p = \<lparr>Index = [0], Path = ''p'', Name = ''p'', Options = [(''omitempty'', [])], Zero = VNilPtr TInt\<rparr>"

definition ex_tm :: typemap where
  "ex_tm t =
     (if t = TUser \<or> t = TPtr TUser then [(''name'', fi_name), (''id'', fi_id)]
      else if t = TTagged \<or> t = TPtr TTagged then [(''tag'', fi_tag)]
      else if t = TOpt \<or> t = TPtr TOpt then [(''p'', fi_p)]
      else [])"

text \<open>A driver that converts a cell only into a destination of the cell's own type.\<close>

definition ex_conv :: converter where
  "ex_conv t c = (if typeOf c = t then Inr c else Inl (ExternalError ''converting driver value''))"

text \<open>Values without \<^verbatim>\<open>IsZero()\<close> and \<^verbatim>\<open>MarshalDB()\<close>; \<^verbatim>\<open>%v\<close> of a string.\<close>

definition ex_isz :: zero_check where
  "ex_isz v = None"

definition ex_marsh :: marshaler where
  "ex_marsh v = None"

fun ex_fmtv :: "gval \<Rightarrow> string" where
  "ex_fmtv (VString s) = s"
| "ex_fmtv v = []"





text \<open>A cursor over columns \<^verbatim>\<open>id\<close>, \<^verbatim>\<open>name\<close>, \<^verbatim>\<open>extra\<close> with one row, and one with no row.\<close>

definition ex_cursor :: sql_Rows where
  "ex_cursor = \<lparr>cols = Inr [''id'', ''name'', ''extra''],
                 pending = [[VInt 7, VString ''ann'', VString ''x'']],
                 lastcols = None, lasterr = None, closed = False\<rparr>"

definition ex_cursor2 :: sql_Rows where
  "ex_cursor2 = \<lparr>cols = Inr [''id'', ''name''],
                  pending = [[VInt 7, VString ''ann''], [VInt 8, VString ''bob'']],
                  lastcols = None, lasterr = None, closed = False\<rparr>"

definition ex_empty :: sql_Rows where
  "ex_empty = \<lparr>cols = Inr [''id'', ''name''], pending = [], lastcols = None, lasterr = None, closed = False\<rparr>"

definition ex_cursor1 :: sql_Rows where
  "ex_cursor1 = \<lparr>cols = Inr [''id''], pending = [[VInt 7]], lastcols = None, lasterr = None, closed = False\<rparr>"

definition ex_Mapper :: Mapper where
  "ex_Mapper = \<lparr>mapper_addr = 0, tagName = ''db'', mapFunc = strings_ToLower\<rparr>"

text \<open>Cursors as \<^verbatim>\<open>Queryx\<close> of a connection in safe mode wraps them.\<close>

definition ex_Rows :: Rows where
  "ex_Rows = \<lparr>rows_sql = ex_cursor, rows_unsafe = False, rows_Mapper = ex_Mapper\<rparr>"

definition ex_Rows2 :: Rows where
  "ex_Rows2 = \<lparr>rows_sql = ex_cursor2, rows_unsafe = False, rows_Mapper = ex_Mapper\<rparr>"

text \<open>A database whose \<^verbatim>\<open>Exec\<close> fails, as on a violated constraint.\<close>

definition ex_sql_Tx :: sql_Tx where
  "ex_sql_Tx = \<lparr>tx_Prepare = (\<lambda>q. Inr \<lparr>stmt_handle = 1\<rparr>), tx_Stmt = (\<lambda>s. s),
                 tx_Exec = (\<lambda>q args. Inl (ExternalError ''duplicate key''))\<rparr>"

definition ex_DB :: DB where
  "ex_DB = \<lparr>db_sql = \<lparr>db_Begin = Inr ex_sql_Tx, db_Prepare = (\<lambda>q. Inr \<lparr>stmt_handle = 0\<rparr>),
                        db_Exec = (\<lambda>q args. Inl (ExternalError ''duplicate key''))\<rparr>,
             db_driverName = ''mysql'', db_unsafe = False, db_Mapper = ex_Mapper\<rparr>"

definition ex_Tx :: Tx where
  "ex_Tx = \<lparr>tx_sql = ex_sql_Tx, tx_driverName = ''mysql'', tx_unsafe = True, tx_Mapper = ex_Mapper\<rparr>"

definition ex_Stmt :: Stmt where
  "ex_Stmt = \<lparr>stmt_sql = \<lparr>stmt_handle = 0\<rparr>, stmt_unsafe = True, stmt_Mapper = ex_Mapper\<rparr>"

section \<open>Facts about the model\<close>

lemma typeOf_reflect_Zero: "typeOf (reflect_Zero t) = t"
  by (induction t) (simp_all add: map_idI)

subsection \<open>The sort through \<^verbatim>\<open>Len\<close>, \<^verbatim>\<open>Less\<close> and \<^verbatim>\<open>Swap\<close>\<close>

lemma fields_Swap: "fv_fields (Swap fv i j) = (fv_fields fv)[i := fv_fields fv ! j, j := fv_fields fv ! i]"
  by (simp add: Swap_def)

lemma values_Swap: "fv_values (Swap fv i j) = (fv_values fv)[i := fv_values fv ! j, j := fv_values fv ! i]"
  by (simp add: Swap_def)

lemma length_Swap: "length (fv_fields (Swap fv i j)) = length (fv_fields fv)" "length (fv_values (Swap fv i j)) = length (fv_values fv)"
  by (simp_all add: Swap_def)

lemma pairs_Swap:
  assumes "i < length (fv_fields fv)" "j < length (fv_fields fv)" "length (fv_values fv) = length (fv_fields fv)"
  shows "mset (zip (fv_fields (Swap fv i j)) (fv_values (Swap fv i j))) = mset (zip (fv_fields fv) (fv_values fv))"
proof -
  let ?ps = "zip (fv_fields fv) (fv_values fv)"
  have len: "i < length ?ps" "j < length ?ps" using assms by simp_all
  have eq: "zip (fv_fields (Swap fv i j)) (fv_values (Swap fv i j)) = ?ps[i := ?ps ! j, j := ?ps ! i]"
    using assms by (simp add: Swap_def zip_update)
  show ?thesis unfolding eq by (rule mset_swap[OF len(2) len(1)])
qed

lemma length_inner: "length (fv_fields (insertionSort_inner fv j)) = length (fv_fields fv) \<and> length (fv_values (insertionSort_inner fv j)) = length (fv_values fv)"
  by (induction j arbitrary: fv) (simp_all add: length_Swap)

lemma pairs_inner:
  "j < length (fv_fields fv) \<Longrightarrow> length (fv_values fv) = length (fv_fields fv) \<Longrightarrow>
   mset (zip (fv_fields (insertionSort_inner fv j)) (fv_values (insertionSort_inner fv j))) = mset (zip (fv_fields fv) (fv_values fv))"
proof (induction j arbitrary: fv)
  case 0 then show ?case by simp
next
  case (Suc j)
  show ?case
  proof (cases "Less fv (Suc j) j")
    case True
    have "mset (zip (fv_fields (insertionSort_inner (Swap fv (Suc j) j) j)) (fv_values (insertionSort_inner (Swap fv (Suc j) j) j)))
        = mset (zip (fv_fields (Swap fv (Suc j) j)) (fv_values (Swap fv (Suc j) j)))"
      using Suc.prems by (intro Suc.IH) (simp_all add: length_Swap)
    also have "\<dots> = mset (zip (fv_fields fv) (fv_values fv))"
      using Suc.prems by (intro pairs_Swap) simp_all
    finally show ?thesis using True by simp
  next
    case False then show ?thesis by simp
  qed
qed

lemma sorted_inner:
  "j \<le> i \<Longrightarrow> i < length (fv_fields fv) \<Longrightarrow>
   (\<forall>a b. a \<le> b \<and> b \<le> i \<and> a \<noteq> j \<and> b \<noteq> j \<longrightarrow> fv_fields fv ! a \<le> fv_fields fv ! b) \<Longrightarrow>
   (\<forall>b. j < b \<and> b \<le> i \<longrightarrow> fv_fields fv ! j \<le> fv_fields fv ! b) \<Longrightarrow>
   (\<forall>a b. a \<le> b \<and> b \<le> i \<longrightarrow> fv_fields (insertionSort_inner fv j) ! a \<le> fv_fields (insertionSort_inner fv j) ! b)"
proof (induction j arbitrary: fv)
  case 0
  show ?case
  proof (intro allI impI)
    fix a b assume h: "a \<le> b \<and> b \<le> i"
    show "fv_fields (insertionSort_inner fv 0) ! a \<le> fv_fields (insertionSort_inner fv 0) ! b"
    proof (cases "a = 0")
      case True
      then show ?thesis using "0.prems"(4) h by (cases "b = 0") simp_all
    next
      case False
      then have "a \<le> b \<and> b \<le> i \<and> a \<noteq> 0 \<and> b \<noteq> 0" using h by simp
      then show ?thesis using "0.prems"(3) by simp
    qed
  qed
next
  case (Suc j)
  let ?xs = "fv_fields fv"
  show ?case
  proof (cases "Less fv (Suc j) j")
    case True
    let ?fv' = "Swap fv (Suc j) j"
    let ?ys = "fv_fields ?fv'"
    have lt: "?xs ! Suc j < ?xs ! j" using True by (simp add: Less_def)
    have ys: "?ys = ?xs[Suc j := ?xs ! j, j := ?xs ! Suc j]" by (simp add: fields_Swap)
    have jl: "Suc j < length ?xs" "j < length ?xs" using Suc.prems by simp_all
    have nth: "\<And>k. k < length ?xs \<Longrightarrow> ?ys ! k = (if k = j then ?xs ! Suc j else if k = Suc j then ?xs ! j else ?xs ! k)"
      using jl by (simp add: ys nth_list_update)
    have A: "\<forall>a b. a \<le> b \<and> b \<le> i \<and> a \<noteq> j \<and> b \<noteq> j \<longrightarrow> ?ys ! a \<le> ?ys ! b"
    proof (intro allI impI)
      fix a b assume h: "a \<le> b \<and> b \<le> i \<and> a \<noteq> j \<and> b \<noteq> j"
      then have al: "a < length ?xs" "b < length ?xs" using Suc.prems by simp_all
      show "?ys ! a \<le> ?ys ! b"
      proof (cases "a = Suc j")
        case True
        show ?thesis
        proof (cases "b = Suc j")
          case True with \<open>a = Suc j\<close> show ?thesis by simp
        next
          case False
          then have "j \<le> b \<and> b \<le> i \<and> j \<noteq> Suc j \<and> b \<noteq> Suc j" using h True by simp
          then have "?xs ! j \<le> ?xs ! b" by (rule Suc.prems(3)[rule_format])
          then show ?thesis using True False h al by (simp add: nth)
        qed
      next
        case False
        show ?thesis
        proof (cases "b = Suc j")
          case True
          then have "a < j" using h False by simp
          then have "a \<le> j \<and> j \<le> i \<and> a \<noteq> Suc j \<and> j \<noteq> Suc j" using Suc.prems(1) by simp
          then have "?xs ! a \<le> ?xs ! j" by (rule Suc.prems(3)[rule_format])
          then show ?thesis using True False h al by (simp add: nth)
        next
          case bF: False
          then have "a \<le> b \<and> b \<le> i \<and> a \<noteq> Suc j \<and> b \<noteq> Suc j" using h False by simp
          then have "?xs ! a \<le> ?xs ! b" by (rule Suc.prems(3)[rule_format])
          then show ?thesis using bF False h al by (simp add: nth)
        qed
      qed
    qed
    have B: "\<forall>b. j < b \<and> b \<le> i \<longrightarrow> ?ys ! j \<le> ?ys ! b"
    proof (intro allI impI)
      fix b assume h: "j < b \<and> b \<le> i"
      then have bl: "b < length ?xs" using Suc.prems by simp
      show "?ys ! j \<le> ?ys ! b"
      proof (cases "b = Suc j")
        case True then show ?thesis using lt jl by (simp add: nth)
      next
        case False
        then have "Suc j < b" using h by simp
        then have "?xs ! Suc j \<le> ?xs ! b" using Suc.prems(4) h by simp
        then show ?thesis using False h bl jl by (simp add: nth)
      qed
    qed
    have "\<forall>a b. a \<le> b \<and> b \<le> i \<longrightarrow> fv_fields (insertionSort_inner ?fv' j) ! a \<le> fv_fields (insertionSort_inner ?fv' j) ! b"
      using Suc.prems A B by (intro Suc.IH) (simp_all add: length_Swap)
    then show ?thesis using True by simp
  next
    case False
    then have ge: "?xs ! j \<le> ?xs ! Suc j" by (simp add: Less_def)
    have "\<forall>a b. a \<le> b \<and> b \<le> i \<longrightarrow> ?xs ! a \<le> ?xs ! b"
    proof (intro allI impI)
      fix a b assume h: "a \<le> b \<and> b \<le> i"
      show "?xs ! a \<le> ?xs ! b"
      proof (cases "a = Suc j")
        case True
        then show ?thesis using Suc.prems(4) h by (cases "b = Suc j") simp_all
      next
        case aF: False
        show ?thesis
        proof (cases "b = Suc j")
          case True
          then have "a \<le> j \<and> j \<le> i \<and> a \<noteq> Suc j \<and> j \<noteq> Suc j" using h aF Suc.prems(1) by simp
          then have "?xs ! a \<le> ?xs ! j" by (rule Suc.prems(3)[rule_format])
          then show ?thesis using ge True by simp
        next
          case False
          then have "a \<le> b \<and> b \<le> i \<and> a \<noteq> Suc j \<and> b \<noteq> Suc j" using h aF by simp
          then show ?thesis by (rule Suc.prems(3)[rule_format])
        qed
      qed
    qed
    then show ?thesis using False by simp
  qed
qed

lemma outer_inv:
  "0 < i \<Longrightarrow> i \<le> b \<Longrightarrow> b \<le> length (fv_fields fv) \<Longrightarrow> length (fv_values fv) = length (fv_fields fv) \<Longrightarrow>
   (\<forall>a c. a \<le> c \<and> c < i \<longrightarrow> fv_fields fv ! a \<le> fv_fields fv ! c) \<Longrightarrow>
   (\<forall>a c. a \<le> c \<and> c < b \<longrightarrow> fv_fields (insertionSort_outer fv i b) ! a \<le> fv_fields (insertionSort_outer fv i b) ! c)
   \<and> length (fv_fields (insertionSort_outer fv i b)) = length (fv_fields fv)
   \<and> length (fv_values (insertionSort_outer fv i b)) = length (fv_values fv)
   \<and> mset (zip (fv_fields (insertionSort_outer fv i b)) (fv_values (insertionSort_outer fv i b))) = mset (zip (fv_fields fv) (fv_values fv))"
proof (induction fv i b rule: insertionSort_outer.induct)
  case (1 fv i b)
  show ?case
  proof (cases "i < b")
    case False
    then have "i = b" using "1.prems" by simp
    then show ?thesis using "1.prems" by simp
  next
    case True
    let ?fv' = "insertionSort_inner fv i"
    have il: "i < length (fv_fields fv)" using True "1.prems" by simp
    have p3: "\<forall>a c. a \<le> c \<and> c \<le> i \<and> a \<noteq> i \<and> c \<noteq> i \<longrightarrow> fv_fields fv ! a \<le> fv_fields fv ! c"
      using "1.prems"(5) by simp
    have p4: "\<forall>c. i < c \<and> c \<le> i \<longrightarrow> fv_fields fv ! i \<le> fv_fields fv ! c" by auto
    have s: "\<forall>a c. a \<le> c \<and> c \<le> i \<longrightarrow> fv_fields ?fv' ! a \<le> fv_fields ?fv' ! c"
      by (rule sorted_inner[OF order_refl il p3 p4])
    then have s': "\<forall>a c. a \<le> c \<and> c < Suc i \<longrightarrow> fv_fields ?fv' ! a \<le> fv_fields ?fv' ! c"
      by (simp add: less_Suc_eq_le)
    have len: "length (fv_fields ?fv') = length (fv_fields fv)" "length (fv_values ?fv') = length (fv_values fv)"
      using length_inner[of fv i] by simp_all
    have ms: "mset (zip (fv_fields ?fv') (fv_values ?fv')) = mset (zip (fv_fields fv) (fv_values fv))"
      using il "1.prems"(4) by (rule pairs_inner)
    have IH: "(\<forall>a c. a \<le> c \<and> c < b \<longrightarrow> fv_fields (insertionSort_outer ?fv' (Suc i) b) ! a \<le> fv_fields (insertionSort_outer ?fv' (Suc i) b) ! c)
       \<and> length (fv_fields (insertionSort_outer ?fv' (Suc i) b)) = length (fv_fields ?fv')
       \<and> length (fv_values (insertionSort_outer ?fv' (Suc i) b)) = length (fv_values ?fv')
       \<and> mset (zip (fv_fields (insertionSort_outer ?fv' (Suc i) b)) (fv_values (insertionSort_outer ?fv' (Suc i) b))) = mset (zip (fv_fields ?fv') (fv_values ?fv'))"
      using True "1.prems" len s' by (intro "1.IH") simp_all
    have unf: "insertionSort_outer fv i b = insertionSort_outer ?fv' (Suc i) b"
      using True by (subst insertionSort_outer.simps) simp
    show ?thesis unfolding unf using IH len ms by simp
  qed
qed

lemma Sort_sorted_pairs:
  assumes "length (fv_values fv) = length (fv_fields fv)"
  shows "sorted (fv_fields (Sort fv))"
    and "length (fv_fields (Sort fv)) = length (fv_fields fv)"
    and "length (fv_values (Sort fv)) = length (fv_fields fv)"
    and "mset (zip (fv_fields (Sort fv)) (fv_values (Sort fv))) = mset (zip (fv_fields fv) (fv_values fv))"
proof -
  show "sorted (fv_fields (Sort fv))"
  proof (cases "Len fv \<le> 1")
    case True
    then have "length (fv_fields fv) \<le> 1" by (simp add: Len_def)
    then have "sorted (fv_fields fv)" by (cases "fv_fields fv") simp_all
    then show ?thesis using True by (simp add: Sort_def)
  next
    case False
    let ?r = "insertionSort_outer fv 1 (Len fv)"
    have "(\<forall>a c. a \<le> c \<and> c < Len fv \<longrightarrow> fv_fields ?r ! a \<le> fv_fields ?r ! c) \<and> length (fv_fields ?r) = length (fv_fields fv)"
      using outer_inv[of 1 "Len fv" fv] False assms by (simp add: Len_def)
    then have "sorted (fv_fields ?r)" by (simp add: sorted_iff_nth_mono Len_def)
    then show ?thesis using False by (simp add: Sort_def)
  qed
next
  have r: "length (fv_fields (Sort fv)) = length (fv_fields fv) \<and> length (fv_values (Sort fv)) = length (fv_fields fv)
     \<and> mset (zip (fv_fields (Sort fv)) (fv_values (Sort fv))) = mset (zip (fv_fields fv) (fv_values fv))"
  proof (cases "Len fv \<le> 1")
    case True then show ?thesis using assms by (simp add: Sort_def)
  next
    case False
    then show ?thesis using outer_inv[of 1 "Len fv" fv] assms by (simp add: Sort_def Len_def)
  qed
  show "length (fv_fields (Sort fv)) = length (fv_fields fv)" using r by simp
  show "length (fv_values (Sort fv)) = length (fv_fields fv)" using r by simp
  show "mset (zip (fv_fields (Sort fv)) (fv_values (Sort fv))) = mset (zip (fv_fields fv) (fv_values fv))" using r by simp
qed



subsection \<open>The pairs \<^verbatim>\<open>Map\<close> collects\<close>

lemma push_pairs:
  "length (fv_values fv) = length (fv_fields fv) \<Longrightarrow>
   length (fv_values (push fv f v)) = length (fv_fields (push fv f v)) \<and>
   zip (fv_fields (push fv f v)) (fv_values (push fv f v)) = zip (fv_fields fv) (fv_values fv) @ [(f, v)]"
  by (simp add: push_def)

lemma Map_struct_lengths:
  "Map_struct isz marsh opts itemV fm fv = Returns (fv', e) \<Longrightarrow>
   length (fv_values fv) = length (fv_fields fv) \<Longrightarrow>
   length (fv_values fv') = length (fv_fields fv') \<and>
   set (zip (fv_fields fv) (fv_values fv)) \<subseteq> set (zip (fv_fields fv') (fv_values fv'))"
proof (induction fm arbitrary: fv)
  case Nil
  then show ?case by simp
next
  case (Cons a fm)
  obtain k fi where a: "a = (k, fi)" by (cases a)
  show ?case using Cons.prems unfolding a
    by (auto simp: Let_def split: option.splits if_splits prod.splits
             dest!: Cons.IH dest: push_pairs[THEN conjunct1] simp: push_pairs)
qed

lemma Map_map_lengths:
  "Map_map marsh fmtv m fv = (fv', e) \<Longrightarrow>
   length (fv_values fv) = length (fv_fields fv) \<Longrightarrow>
   length (fv_values fv') = length (fv_fields fv')"
proof (induction m arbitrary: fv)
  case Nil
  then show ?case by simp
next
  case (Cons a m)
  obtain keyV valv where a: "a = (keyV, valv)" by (cases a)
  show ?case using Cons.prems unfolding a
    by (auto simp: push_pairs split: option.splits prod.splits dest!: Cons.IH)
qed

lemma Map_fields_lengths:
  "Map_fields tm isz marsh fmtv itemV opts = Returns (name, fv, e) \<Longrightarrow> length (fv_values fv) = length (fv_fields fv)"
  unfolding Map_fields_def Let_def
  by (auto split: kind.splits exec.splits prod.splits option.splits
           dest!: Map_struct_lengths Map_map_lengths)

lemma Map_collect_lengths:
  "Map_collect tm isz marsh fmtv item options = Returns (name, fv, e) \<Longrightarrow> length (fv_values fv) = length (fv_fields fv)"
  unfolding Map_collect_def Let_def
  by (auto split: option.splits if_splits gval.splits dest: Map_fields_lengths)

lemma Map_struct_names:
  "Map_struct isz marsh opts itemV fm fv = Returns (fv', None) \<Longrightarrow> n \<in> set (fv_fields fv') \<Longrightarrow>
   n \<in> set (fv_fields fv) \<or>
   (\<exists>k fi fld. (k, fi) \<in> set fm \<and> Name fi = n \<and> load_field itemV (Index fi) = Some fld
       \<and> \<not> (is_nil_ptr fld \<and> has_option fi ''omitempty'' \<and> \<not> IncludeNil opts)
       \<and> \<not> (\<not> is_nil_ptr fld \<and> isZero isz fi fld \<and> has_option fi ''omitempty'' \<and> \<not> IncludeZeroed opts))"
proof (induction fm arbitrary: fv)
  case Nil
  then show ?case by simp
next
  case (Cons a fm)
  obtain k fi where a: "a = (k, fi)" by (cases a)
  show ?case
  proof (cases "load_field itemV (Index fi)")
    case None
    then show ?thesis using Cons.prems(1) by (simp add: a)
  next
    case (Some fld)
    have np: "(Kind (typeOf fld) = KPtr \<and> is_nil_ptr fld) = is_nil_ptr fld" by (cases fld) simp_all
    consider (skip) "Map_struct isz marsh opts itemV fm fv = Returns (fv', None)"
        "(is_nil_ptr fld \<and> has_option fi ''omitempty'' \<and> \<not> IncludeNil opts)
         \<or> (\<not> is_nil_ptr fld \<and> isZero isz fi fld \<and> has_option fi ''omitempty'' \<and> \<not> IncludeZeroed opts)"
      | (emit) v where "Map_struct isz marsh opts itemV fm (push fv (Name fi) v) = Returns (fv', None)"
        "\<not> (is_nil_ptr fld \<and> has_option fi ''omitempty'' \<and> \<not> IncludeNil opts)"
        "\<not> (\<not> is_nil_ptr fld \<and> isZero isz fi fld \<and> has_option fi ''omitempty'' \<and> \<not> IncludeZeroed opts)"
      using Cons.prems(1) Some
      by (auto simp: a np Let_def split: if_splits prod.splits option.splits)
    then show ?thesis
    proof cases
      case skip
      then show ?thesis using Cons.IH[OF skip(1) Cons.prems(2)] by (auto simp: a)
    next
      case emit
      have "n \<in> set (fv_fields (push fv (Name fi) v)) \<or>
        (\<exists>k fi fld. (k, fi) \<in> set fm \<and> Name fi = n \<and> load_field itemV (Index fi) = Some fld
          \<and> \<not> (is_nil_ptr fld \<and> has_option fi ''omitempty'' \<and> \<not> IncludeNil opts)
          \<and> \<not> (\<not> is_nil_ptr fld \<and> isZero isz fi fld \<and> has_option fi ''omitempty'' \<and> \<not> IncludeZeroed opts))"
        by (rule Cons.IH[OF emit(1) Cons.prems(2)])
      then show ?thesis using emit(2,3) Some by (auto simp: a push_def)
    qed
  qed
qed

lemma Map_struct_placeholder:
  "(k, fi) \<in> set fm \<Longrightarrow> Map_struct isz marsh opts itemV fm fv = Returns (fv', None) \<Longrightarrow>
   length (fv_values fv) = length (fv_fields fv) \<Longrightarrow>
   load_field itemV (Index fi) = Some fld \<Longrightarrow> has_option fi ''omitempty'' \<Longrightarrow>
   (is_nil_ptr fld \<and> IncludeNil opts) \<or> (\<not> is_nil_ptr fld \<and> isZero isz fi fld \<and> IncludeZeroed opts) \<Longrightarrow>
   (Name fi, VString []) \<in> set (zip (fv_fields fv') (fv_values fv'))"
proof (induction fm arbitrary: fv)
  case Nil
  then show ?case by simp
next
  case (Cons a fm)
  obtain k' fi' where a: "a = (k', fi')" by (cases a)
  show ?case
  proof (cases "a = (k, fi)")
    case True
    have np: "(Kind (typeOf fld) = KPtr \<and> is_nil_ptr fld) = is_nil_ptr fld" by (cases fld) simp_all
    have "Map_struct isz marsh opts itemV fm (push fv (Name fi) (VString [])) = Returns (fv', None)"
      using Cons.prems(2,4,5,6) True
      by (auto simp: np Let_def split: if_splits prod.splits option.splits)
    then have "set (zip (fv_fields (push fv (Name fi) (VString []))) (fv_values (push fv (Name fi) (VString []))))
        \<subseteq> set (zip (fv_fields fv') (fv_values fv'))"
      using Cons.prems(3) push_pairs[OF Cons.prems(3)] Map_struct_lengths by blast
    then show ?thesis using push_pairs[OF Cons.prems(3), of "Name fi" "VString []"] by auto
  next
    case False
    then have mem: "(k, fi) \<in> set fm" using Cons.prems(1) by simp
    obtain fv1 where run: "Map_struct isz marsh opts itemV fm fv1 = Returns (fv', None)"
        and len: "length (fv_values fv1) = length (fv_fields fv1)"
      using Cons.prems(2,3) push_pairs[OF Cons.prems(3)]
      by (auto simp: a Let_def split: if_splits prod.splits option.splits)
    show ?thesis
      by (rule Cons.IH[OF mem run len Cons.prems(4) Cons.prems(5) Cons.prems(6)])
  qed
qed

lemma Map_of_struct:
  assumes "item = Some (VStruct n xs) \<or> item = Some (VPtr (VStruct n xs))"
    and "Map tm isz marsh fmtv item options = Returns (name, fs, vs, None)"
  shows "\<exists>fv. Map_struct isz marsh (case options of None \<Rightarrow> defaultMapOptions | Some opts \<Rightarrow> opts)
               (VStruct n xs) (tm (typeOf (VStruct n xs))) \<lparr>fv_fields = [], fv_values = []\<rparr> = Returns (fv, None)
          \<and> length (fv_values fv) = length (fv_fields fv)
          \<and> set fs = set (fv_fields fv)
          \<and> set (zip fs vs) = set (zip (fv_fields fv) (fv_values fv))"
proof -
  let ?opts = "case options of None \<Rightarrow> defaultMapOptions | Some opts \<Rightarrow> opts"
  have col: "Map_collect tm isz marsh fmtv item options = Map_fields tm isz marsh fmtv (VStruct n xs) ?opts"
    using assms(1) by (auto simp: Map_collect_def)
  obtain fv where c: "Map_collect tm isz marsh fmtv item options = Returns (name, fv, None)"
      and fs: "fs = fv_fields (Sort fv)" and vs: "vs = fv_values (Sort fv)"
    using assms(2) by (auto simp: Map_def split: exec.splits prod.splits option.splits)
  have len: "length (fv_values fv) = length (fv_fields fv)" using c by (rule Map_collect_lengths)
  have st: "Map_struct isz marsh ?opts (VStruct n xs) (tm (typeOf (VStruct n xs))) \<lparr>fv_fields = [], fv_values = []\<rparr> = Returns (fv, None)"
    using c unfolding col
    by (auto simp: Map_fields_def Let_def split: exec.splits prod.splits option.splits)
  note srt = Sort_sorted_pairs[OF len]
  have z: "set (zip fs vs) = set (zip (fv_fields fv) (fv_values fv))"
    unfolding fs vs using srt(4) by (rule mset_eq_setD)
  have "mset (map fst (zip fs vs)) = mset (map fst (zip (fv_fields fv) (fv_values fv)))"
    unfolding fs vs using srt(4) by simp
  then have "mset fs = mset (fv_fields fv)" using srt(2,3) len by (simp add: fs vs)
  then have "set fs = set (fv_fields fv)" by (rule mset_eq_setD)
  then show ?thesis using st len z by blast
qed

lemma isZero_of_zero_value:
  assumes "isz (Interface_of fld) = None" "Zero fi = reflect_Zero (typeOf fld)"
    "fld = reflect_Zero (typeOf fld)" "\<forall>n t. typeOf fld \<noteq> TArray (Suc n) t"
  shows "isZero isz fi fld"
proof (cases "typeOf fld")
  case (TArray n t)
  then have "n = 0" using assms(4) by (cases n) simp_all
  then have "fld = VArray t []" using assms(3) TArray by simp
  then show ?thesis using assms(1) by (simp add: isZero_def)
next
  case (TSlice t)
  then have "fld = VNilSlice t" using assms(3) by simp
  then show ?thesis using assms(1) by (simp add: isZero_def)
qed (use assms in \<open>simp_all add: isZero_def DeepEqual_def\<close>)

subsection \<open>The safety flag and the shared mapper\<close>

lemma Beginx_inherits: "Beginx db = (Some tx, err) \<Longrightarrow> tx_unsafe tx = db_unsafe db"
  by (auto simp: Beginx_def split: sum.splits)

lemma DB_Preparex_inherits: "DB_Preparex db q st = ((Some s, err), st') \<Longrightarrow> stmt_unsafe s = db_unsafe db"
  by (auto simp: DB_Preparex_def Preparex_def split: sum.splits)

lemma Tx_Preparex_inherits: "Tx_Preparex tx q st = ((Some s, err), st') \<Longrightarrow> stmt_unsafe s = tx_unsafe tx"
  by (auto simp: Tx_Preparex_def Preparex_def split: sum.splits)

lemma Stmtx_unsafe: "Stmtx tx stmt = Returns s \<Longrightarrow> stmt_unsafe s = False"
  by (cases stmt) auto

lemma scanAll_panics:
  "scanAll rows (Some (VPtr v)) structOnly = Panics (Msg ''reflect: call of reflect.Value.Elem on zero Value'')"
  by (simp add: scanAll_def ValueKind_def)

lemma insertTable_panics:
  assumes "columnNames \<noteq> []" "\<forall>q. db_Exec (db_sql db) q columnValues = Inl err"
  shows "insertTable db tableName columnNames columnValues = Panics (PanicErr err)"
proof -
  have "length (Repeat ''?,'' (length columnNames)) \<noteq> 0"
    using assms(1) by (cases columnNames) (simp_all add: Repeat_def)
  then show ?thesis using assms(2) by (simp add: insertTable_def MustExec_def Let_def)
qed

lemma mapper_rebuilds:
  "mpr st = Some m \<Longrightarrow> origMapper st = mapFunc m \<Longrightarrow> NameMapper st \<noteq> mapFunc m \<Longrightarrow>
   mapFunc (fst (mapper st)) = NameMapper st \<and> mapper_addr (fst (mapper st)) = allocated st
   \<and> mpr (snd (mapper st)) = Some (fst (mapper st)) \<and> origMapper (snd (mapper st)) = NameMapper st"
  by (simp add: mapper_def NewMapperFunc_def)

lemma mapper_cached:
  "mpr st = Some m \<Longrightarrow> origMapper st = NameMapper st \<Longrightarrow> mapper st = (m, st)"
  by (simp add: mapper_def)

subsection \<open>The loop of \<^verbatim>\<open>fetchRows\<close>\<close>

lemma Next_True:
  "fst (Next rows) \<Longrightarrow>
   \<not> closed rows \<and> \<not> closed (snd (Next rows)) \<and> length (pending rows) = Suc (length (pending (snd (Next rows))))"
  by (auto simp: Next_def split: if_splits list.splits)

lemma Next_False:
  "\<not> fst (Next rows) \<Longrightarrow> closed rows \<or> pending rows = []"
  by (auto simp: Next_def split: if_splits list.splits)

lemma Append_VSlice: "Append (VSlice t acc) x = Returns s \<Longrightarrow> s = VSlice t (acc @ [x])"
  by simp

lemma fetchRows_loop_slice:
  "fetchRows_loop tm conv itemT columns rows s = Returns (s', e, rows') \<Longrightarrow> s = VSlice t acc \<Longrightarrow>
   \<exists>xs. s' = VSlice t (acc @ xs) \<and> length xs \<le> length (pending rows)
      \<and> (e = None \<longrightarrow> length xs = (if closed rows then 0 else length (pending rows)))"
proof (induction tm conv itemT columns rows s arbitrary: acc rule: fetchRows_loop.induct)
  case (1 tm conv itemT columns rows slicev)
  show ?case
  proof (cases "fst (Next rows)")
    case False
    then have "s' = slicev \<and> e = None" using "1.prems"(1)
      by (subst (asm) fetchRows_loop.simps) simp
    then show ?thesis using "1.prems"(2) Next_False[OF False] by auto
  next
    case True
    note nx = Next_True[OF True]
    show ?thesis
    proof (cases "fetchResult tm conv (snd (Next rows)) itemT columns")
      case (Panics m)
      then show ?thesis using "1.prems"(1) True
        by (subst (asm) fetchRows_loop.simps) simp
    next
      case (Returns r)
      obtain item eo where r: "r = (item, eo)" by (cases r)
      show ?thesis
      proof (cases eo)
        case (Some err)
        then have "s' = slicev \<and> e = Some err" using "1.prems"(1) True Returns r
          by (subst (asm) fetchRows_loop.simps) (simp split: option.splits)
        then show ?thesis using "1.prems"(2) by simp
      next
        case None
        show ?thesis
        proof (cases item)
          case None': None
          then show ?thesis using "1.prems"(1) True Returns r None
            by (subst (asm) fetchRows_loop.simps) simp
        next
          case (Some itm)
          show ?thesis
          proof (cases "if Kind itemT = KPtr then Some itm else Indirect itm")
            case None''': None
            then show ?thesis using "1.prems"(1) True Returns r None Some
              by (subst (asm) fetchRows_loop.simps) simp
          next
            case (Some x)
            have ap: "Append slicev x = Returns (VSlice t (acc @ [x]))"
              using "1.prems"(2) by simp
            have rec: "fetchRows_loop tm conv itemT columns (snd (Next rows)) (VSlice t (acc @ [x])) = Returns (s', e, rows')"
              using "1.prems"(1) True Returns r None \<open>item = Some itm\<close> Some ap
              by (subst (asm) fetchRows_loop.simps) simp
            have "\<exists>xs. s' = VSlice t ((acc @ [x]) @ xs) \<and> length xs \<le> length (pending (snd (Next rows)))
               \<and> (e = None \<longrightarrow> length xs = (if closed (snd (Next rows)) then 0 else length (pending (snd (Next rows)))))"
              using True Returns r None \<open>item = Some itm\<close> Some ap rec
              by (intro "1.IH"[where acc="acc @ [x]"]) simp_all
            then obtain xs where xs: "s' = VSlice t ((acc @ [x]) @ xs)" "length xs \<le> length (pending (snd (Next rows)))"
               "e = None \<longrightarrow> length xs = (if closed (snd (Next rows)) then 0 else length (pending (snd (Next rows))))"
              by blast
            show ?thesis
              using xs nx by (intro exI[of _ "x # xs"]) simp
          qed
        qed
      qed
    qed
  qed
qed

lemma typeOf_slice_cases: "typeOf sl = TSlice t \<Longrightarrow> sl = VNilSlice t \<or> (\<exists>old. sl = VSlice t old)"
  by (cases sl) simp_all

lemma fetchRows_from_slice:
  assumes "reset_value sl = VSlice t []" "typeOf sl = TSlice t" "Columns rows = Inr columns"
  shows "fetchRows tm conv rows (Some (VPtr sl)) =
     (case fetchRows_loop tm conv t columns rows (VSlice t []) of
        Panics m \<Rightarrow> Panics m
      | Returns (slicev, Some e, rows1) \<Rightarrow> Returns (Some e, Some (VPtr (VSlice t [])), Close rows1)
      | Returns (slicev, None, rows1) \<Rightarrow> Returns (Err rows1, Some (VPtr slicev), Close rows1))"
  using assms by (simp add: fetchRows_def ValueKind_def)

lemma reset_value_cases:
  "(Kind (typeOf v) \<noteq> KSlice \<longrightarrow> reset_value v = reflect_Zero (typeOf v)) \<and> (\<forall>t. typeOf v = TSlice t \<longrightarrow> reset_value v = VSlice t [])"
  by (cases v) simp_all

section \<open>The claims\<close>




text \<open>
  C5. A single-row fetch into a non-nil pointer, on a cursor that gives its columns,
  yields no row and reports no error, returns \<^verbatim>\<open>db.ErrNoMoreRows\<close>. No row is scanned,
  and the error is none of the package's other errors nor an error built from a message
  or handed back by the driver or the cursor.
\<close>

theorem fetchRow_no_rows:
  assumes "Columns rows = Inr columns" "\<not> fst (Next rows)" "Err (snd (Next rows)) = None"
  shows "fetchRow tm conv rows (Some (VPtr v)) = Returns (Some ErrNoMoreRows, Some (VPtr (reset_value v)), snd (Next rows))
     \<and> ErrNoMoreRows \<notin> {ErrExpectingPointer, ErrExpectingSlicePointer, ErrExpectingSliceMapStruct,
          ErrExpectingMapOrStruct, ErrExpectingPointerToEitherMapOrStruct, errDeprecatedJSONBTag}
     \<and> (\<forall>s. ErrNoMoreRows \<noteq> ErrorString s \<and> ErrNoMoreRows \<noteq> ExternalError s)"
  using assms by (simp add: fetchRow_def ValueKind_def split_beta)

theorem fetchRow_no_rows_witness:
  "Columns ex_empty = Inr [''id'', ''name''] \<and> \<not> fst (Next ex_empty) \<and> Err (snd (Next ex_empty)) = None
   \<and> fetchRow ex_tm ex_conv ex_empty (Some (VPtr (VStruct ''User'' [VInt 1, VString ''old''])))
       = Returns (Some ErrNoMoreRows, Some (VPtr (VStruct ''User'' [VInt 0, VString []])), ex_empty\<lparr>closed := True\<rparr>)"
proof -
  have h1: "Columns ex_empty = Inr [''id'', ''name'']" by code_simp
  have h2: "\<not> fst (Next ex_empty)" by code_simp
  have h3: "Err (snd (Next ex_empty)) = None" by code_simp
  have e1: "reset_value (VStruct ''User'' [VInt 1, VString ''old'']) = VStruct ''User'' [VInt 0, VString []]"
    by simp
  have e2: "snd (Next ex_empty) = ex_empty\<lparr>closed := True\<rparr>" by code_simp
  show ?thesis
    using fetchRow_no_rows[OF h1 h2 h3, of ex_tm ex_conv "VStruct ''User'' [VInt 1, VString ''old'']"] h1 h2 h3 e1 e2
    by simp
qed

text \<open>
  C9, as amended. When \<^verbatim>\<open>fetchRow\<close> has read the columns and then returns an error (no
  rows, the cursor's error, or an error of \<^verbatim>\<open>fetchResult\<close>), the destination holds what
  \<^verbatim>\<open>reset\<close> wrote: the zero value of its type, except that a destination of slice type
  holds the empty slice, which is not the nil slice.
\<close>

theorem fetchRow_error_leaves_reset_destination:
  assumes "Columns rows = Inr columns" "fetchRow tm conv rows (Some (VPtr v)) = Returns (Some e, dst', rows')"
  shows "dst' = Some (VPtr (reset_value v))
     \<and> (Kind (typeOf v) \<noteq> KSlice \<longrightarrow> reset_value v = reflect_Zero (typeOf v))
     \<and> (\<forall>t. typeOf v = TSlice t \<longrightarrow> reset_value v = VSlice t [])"
proof -
  have "dst' = Some (VPtr (reset_value v))"
    using assms
    by (auto simp: fetchRow_def ValueKind_def Let_def
             split: prod.splits option.splits exec.splits if_splits)
  then show ?thesis using reset_value_cases[of v] by simp
qed

theorem fetchRow_error_leaves_reset_destination_witness:
  "Columns ex_cursor = Inr [''id'', ''name'', ''extra'']
   \<and> fetchRow ex_tm ex_conv ex_cursor (Some (VPtr (VInt 3)))
       = Returns (Some ErrExpectingMapOrStruct, Some (VPtr (VInt 0)),
                  ex_cursor\<lparr>pending := [], lastcols := Some [VInt 7, VString ''ann'', VString ''x'']\<rparr>)
   \<and> Some (VPtr (VInt 0)) = Some (VPtr (reset_value (VInt 3)))
   \<and> reset_value (VInt 3) = reflect_Zero (typeOf (VInt 3))"
proof -
  have h1: "Columns ex_cursor = Inr [''id'', ''name'', ''extra'']" by code_simp
  have h2: "fetchRow ex_tm ex_conv ex_cursor (Some (VPtr (VInt 3)))
       = Returns (Some ErrExpectingMapOrStruct, Some (VPtr (VInt 0)),
                  ex_cursor\<lparr>pending := [], lastcols := Some [VInt 7, VString ''ann'', VString ''x'']\<rparr>)"
    by code_simp
  show ?thesis
    using fetchRow_error_leaves_reset_destination[OF h1 h2] h1 h2 by simp
qed

text \<open>
  C9, as stated, fails for a destination of slice type: after the no-rows error the
  slice \<^verbatim>\<open>[]int{3}\<close> has become the empty slice, and the zero value of \<^verbatim>\<open>[]int\<close> is
  the nil slice.
\<close>

theorem fetchRow_slice_counterexample:
  "fetchRow ex_tm ex_conv ex_empty (Some (VPtr (VSlice TInt [VInt 3])))
     = Returns (Some ErrNoMoreRows, Some (VPtr (VSlice TInt [])), ex_empty\<lparr>closed := True\<rparr>)
   \<and> VSlice TInt [] \<noteq> reflect_Zero (typeOf (VSlice TInt [VInt 3]))"
  by code_simp

text \<open>
  C10. For a destination of slice type and a cursor that gives its columns,
  \<^verbatim>\<open>fetchRows\<close> does what it does on the empty slice of that type, whatever the slice held
  before; the slice it leaves has at most one element per row of the result set, and
  exactly one per row when no error is returned.
\<close>

theorem fetchRows_replaces_destination:
  assumes "typeOf sl = TSlice t" "Columns rows = Inr columns"
  shows "fetchRows tm conv rows (Some (VPtr sl)) = fetchRows tm conv rows (Some (VPtr (VSlice t [])))
     \<and> (\<forall>e dst' rows'. fetchRows tm conv rows (Some (VPtr sl)) = Returns (e, dst', rows') \<longrightarrow>
          (\<exists>xs. dst' = Some (VPtr (VSlice t xs)) \<and> length xs \<le> length (pending rows)
             \<and> (e = None \<longrightarrow> length xs = length (pending rows))))"
proof -
  have rs: "reset_value sl = VSlice t []"
    using typeOf_slice_cases[OF assms(1)] by auto
  note a = fetchRows_from_slice[OF rs assms(1) assms(2), of tm conv]
  have b: "fetchRows tm conv rows (Some (VPtr (VSlice t []))) =
     (case fetchRows_loop tm conv t columns rows (VSlice t []) of
        Panics m \<Rightarrow> Panics m
      | Returns (slicev, Some e, rows1) \<Rightarrow> Returns (Some e, Some (VPtr (VSlice t [])), Close rows1)
      | Returns (slicev, None, rows1) \<Rightarrow> Returns (Err rows1, Some (VPtr slicev), Close rows1))"
    using assms(2) by (intro fetchRows_from_slice) simp_all
  have open_rows: "\<not> closed rows" using assms(2) by (auto simp: Columns_def split: if_splits)
  have c: "\<exists>xs. dst' = Some (VPtr (VSlice t xs)) \<and> length xs \<le> length (pending rows)
             \<and> (e = None \<longrightarrow> length xs = length (pending rows))"
    if r: "fetchRows tm conv rows (Some (VPtr sl)) = Returns (e, dst', rows')" for e dst' rows'
  proof (cases "fetchRows_loop tm conv t columns rows (VSlice t [])")
    case (Panics m)
    then show ?thesis using r a by (simp del: fetchRows_loop.simps)
  next
    case (Returns res)
    obtain slicev eo rows1 where res: "res = (slicev, eo, rows1)" by (cases res)
    obtain xs where xs: "slicev = VSlice t ([] @ xs)" "length xs \<le> length (pending rows)"
        "eo = None \<longrightarrow> length xs = (if closed rows then 0 else length (pending rows))"
      using fetchRows_loop_slice[OF Returns[unfolded res] refl] by blast
    show ?thesis
    proof (cases eo)
      case None
      then show ?thesis using r a Returns res xs open_rows
        by (auto simp del: fetchRows_loop.simps)
    next
      case (Some err)
      then show ?thesis using r a Returns res
        by (auto simp del: fetchRows_loop.simps)
    qed
  qed
  show ?thesis using a b c by (simp del: fetchRows_loop.simps)
qed

theorem fetchRows_replaces_destination_witness:
  "typeOf (VSlice TUser [VStruct ''User'' [VInt 1, VString ''old'']]) = TSlice TUser
   \<and> Columns ex_cursor2 = Inr [''id'', ''name'']
   \<and> fetchRows ex_tm ex_conv ex_cursor2 (Some (VPtr (VSlice TUser [VStruct ''User'' [VInt 1, VString ''old'']])))
       = Returns (None,
            Some (VPtr (VSlice TUser [VStruct ''User'' [VInt 7, VString ''ann''], VStruct ''User'' [VInt 8, VString ''bob'']])),
            ex_cursor2\<lparr>pending := [], lastcols := None, closed := True\<rparr>)
   \<and> fetchRows ex_tm ex_conv ex_cursor2 (Some (VPtr (VSlice TUser [])))
       = Returns (None,
            Some (VPtr (VSlice TUser [VStruct ''User'' [VInt 7, VString ''ann''], VStruct ''User'' [VInt 8, VString ''bob'']])),
            ex_cursor2\<lparr>pending := [], lastcols := None, closed := True\<rparr>)
   \<and> length (pending ex_cursor2) = 2"
proof -
  have h1: "typeOf (VSlice TUser [VStruct ''User'' [VInt 1, VString ''old'']]) = TSlice TUser" by simp
  have h2: "Columns ex_cursor2 = Inr [''id'', ''name'']" by code_simp
  have ev: "fetchRows ex_tm ex_conv ex_cursor2 (Some (VPtr (VSlice TUser [VStruct ''User'' [VInt 1, VString ''old'']])))
       = Returns (None,
            Some (VPtr (VSlice TUser [VStruct ''User'' [VInt 7, VString ''ann''], VStruct ''User'' [VInt 8, VString ''bob'']])),
            ex_cursor2\<lparr>pending := [], lastcols := None, closed := True\<rparr>)"
    by code_simp
  have n: "length (pending ex_cursor2) = 2" by code_simp
  show ?thesis
    using fetchRows_replaces_destination[OF h1 h2, of ex_tm ex_conv] h1 h2 ev n by simp
qed

text \<open>
  C7, as amended. Take a field of a struct source that is tagged \<^verbatim>\<open>omitempty\<close>, in a
  descriptor whose column names are distinct, and a call of \<^verbatim>\<open>Map\<close> that returns without
  error. If the field is not a nil pointer and \<^verbatim>\<open>Map\<close> finds it zero (by \<^verbatim>\<open>IsZero()\<close>
  when the value has it, else by length 0 for an array or a slice, else by equality with
  the zero value of the type): with \<^verbatim>\<open>IncludeZeroed\<close> false the column is absent, with
  \<^verbatim>\<open>IncludeZeroed\<close> true it is present with the empty string. If the field is a nil
  pointer, \<^verbatim>\<open>IncludeNil\<close> decides in the same way, and \<^verbatim>\<open>IncludeZeroed\<close> does not.
\<close>

theorem Map_omitempty:
  assumes src: "item = Some (VStruct n xs) \<or> item = Some (VPtr (VStruct n xs))"
    and opts: "opts = (case options of None \<Rightarrow> defaultMapOptions | Some given \<Rightarrow> given)"
    and mem: "(k, fi) \<in> set (tm (typeOf (VStruct n xs)))"
    and dist: "distinct (map (\<lambda>e. Name (snd e)) (tm (typeOf (VStruct n xs))))"
    and omit: "has_option fi ''omitempty''"
    and ld: "load_field (VStruct n xs) (Index fi) = Some fld"
    and run: "Map tm isz marsh fmtv item options = Returns (name, fs, vs, None)"
  shows "(\<not> is_nil_ptr fld \<and> isZero isz fi fld \<and> \<not> IncludeZeroed opts \<longrightarrow> Name fi \<notin> set fs)
       \<and> (\<not> is_nil_ptr fld \<and> isZero isz fi fld \<and> IncludeZeroed opts \<longrightarrow> (Name fi, VString []) \<in> set (zip fs vs))
       \<and> (is_nil_ptr fld \<and> \<not> IncludeNil opts \<longrightarrow> Name fi \<notin> set fs)
       \<and> (is_nil_ptr fld \<and> IncludeNil opts \<longrightarrow> (Name fi, VString []) \<in> set (zip fs vs))"
proof -
  let ?fm = "tm (typeOf (VStruct n xs))"
  let ?empty = "\<lparr>fv_fields = [], fv_values = []\<rparr>"
  obtain fv where st: "Map_struct isz marsh opts (VStruct n xs) ?fm ?empty = Returns (fv, None)"
      and len: "length (fv_values fv) = length (fv_fields fv)"
      and sf: "set fs = set (fv_fields fv)"
      and sz: "set (zip fs vs) = set (zip (fv_fields fv) (fv_values fv))"
    using Map_of_struct[OF src run] unfolding opts by blast
  have inj: "inj_on (\<lambda>e. Name (snd e)) (set ?fm)" using dist by (simp add: distinct_map)
  have excluded: "Name fi \<notin> set fs"
    if sk: "(is_nil_ptr fld \<and> has_option fi ''omitempty'' \<and> \<not> IncludeNil opts)
         \<or> (\<not> is_nil_ptr fld \<and> isZero isz fi fld \<and> has_option fi ''omitempty'' \<and> \<not> IncludeZeroed opts)"
  proof
    assume "Name fi \<in> set fs"
    then have "Name fi \<in> set (fv_fields fv)" using sf by simp
    then obtain k' fi' fld' where m': "(k', fi') \<in> set ?fm" and nm: "Name fi' = Name fi"
        and ld': "load_field (VStruct n xs) (Index fi') = Some fld'"
        and n1: "\<not> (is_nil_ptr fld' \<and> has_option fi' ''omitempty'' \<and> \<not> IncludeNil opts)"
        and n2: "\<not> (\<not> is_nil_ptr fld' \<and> isZero isz fi' fld' \<and> has_option fi' ''omitempty'' \<and> \<not> IncludeZeroed opts)"
      using Map_struct_names[OF st, of "Name fi"] by auto
    have "(k', fi') = (k, fi)" using inj_onD[OF inj _ m' mem] nm by simp
    then have "fi' = fi" "fld' = fld" using ld ld' by simp_all
    then show False using sk n1 n2 by blast
  qed
  have included: "(Name fi, VString []) \<in> set (zip fs vs)"
    if inc: "(is_nil_ptr fld \<and> IncludeNil opts) \<or> (\<not> is_nil_ptr fld \<and> isZero isz fi fld \<and> IncludeZeroed opts)"
  proof -
    have "(Name fi, VString []) \<in> set (zip (fv_fields fv) (fv_values fv))"
      using mem st _ ld omit inc by (rule Map_struct_placeholder) simp
    then show ?thesis using sz by simp
  qed
  show ?thesis using excluded included omit by blast
qed

theorem Map_omitempty_witness:
  "Map ex_tm ex_isz ex_marsh ex_fmtv (Some (VStruct ''Tagged'' [VString []])) None
      = Returns (''tagged'', [], [], None)
   \<and> ''tag'' \<notin> set ([] :: string list)
   \<and> Map ex_tm ex_isz ex_marsh ex_fmtv (Some (VStruct ''Tagged'' [VString []]))
        (Some \<lparr>IncludeZeroed = True, IncludeNil = False\<rparr>)
      = Returns (''tagged'', [''tag''], [VString []], None)
   \<and> (''tag'', VString []) \<in> set (zip [''tag''] [VString []])"
proof -
  have src: "Some (VStruct ''Tagged'' [VString []]) = Some (VStruct ''Tagged'' [VString []])
      \<or> Some (VStruct ''Tagged'' [VString []]) = Some (VPtr (VStruct ''Tagged'' [VString []]))"
    by simp
  have o1: "defaultMapOptions = (case None of None \<Rightarrow> defaultMapOptions | Some given \<Rightarrow> given)"
    by simp
  have o2: "\<lparr>IncludeZeroed = True, IncludeNil = False\<rparr>
      = (case Some \<lparr>IncludeZeroed = True, IncludeNil = False\<rparr> of None \<Rightarrow> defaultMapOptions | Some given \<Rightarrow> given)"
    by simp
  have mem: "(''tag'', fi_tag) \<in> set (ex_tm (typeOf (VStruct ''Tagged'' [VString []])))" by code_simp
  have dist: "distinct (map (\<lambda>e. Name (snd e)) (ex_tm (typeOf (VStruct ''Tagged'' [VString []]))))" by code_simp
  have omit: "has_option fi_tag ''omitempty''" by code_simp
  have ld: "load_field (VStruct ''Tagged'' [VString []]) (Index fi_tag) = Some (VString [])" by code_simp
  have z: "isZero ex_isz fi_tag (VString [])" by code_simp
  have r1: "Map ex_tm ex_isz ex_marsh ex_fmtv (Some (VStruct ''Tagged'' [VString []])) None
      = Returns (''tagged'', [], [], None)"
    by code_simp
  have r2: "Map ex_tm ex_isz ex_marsh ex_fmtv (Some (VStruct ''Tagged'' [VString []]))
        (Some \<lparr>IncludeZeroed = True, IncludeNil = False\<rparr>)
      = Returns (''tagged'', [''tag''], [VString []], None)"
    by code_simp
  have n: "Name fi_tag = ''tag''" by (simp add: fi_tag_def)
  have d: "\<not> IncludeZeroed defaultMapOptions" by (simp add: defaultMapOptions_def)
  show ?thesis
    using Map_omitempty[OF src o1 mem dist omit ld r1] Map_omitempty[OF src o2 mem dist omit ld r2] z n d r1 r2
    by simp
qed

text \<open>
  C7, as stated, fails for a field whose zero value is the nil pointer: with
  \<^verbatim>\<open>IncludeZeroed\<close> true and \<^verbatim>\<open>IncludeNil\<close> false the column is absent, and with
  \<^verbatim>\<open>IncludeZeroed\<close> false and \<^verbatim>\<open>IncludeNil\<close> true it is present.
\<close>

theorem Map_nil_pointer_counterexample:
  "load_field (VStruct ''Opt'' [VNilPtr TInt]) (Index fi_p) = Some (VNilPtr TInt)
   \<and> VNilPtr TInt = reflect_Zero (typeOf (VNilPtr TInt))
   \<and> has_option fi_p ''omitempty''
   \<and> Map ex_tm ex_isz ex_marsh ex_fmtv (Some (VStruct ''Opt'' [VNilPtr TInt]))
        (Some \<lparr>IncludeZeroed = True, IncludeNil = False\<rparr>)
       = Returns (''opt'', [], [], None)
   \<and> Map ex_tm ex_isz ex_marsh ex_fmtv (Some (VStruct ''Opt'' [VNilPtr TInt]))
        (Some \<lparr>IncludeZeroed = False, IncludeNil = True\<rparr>)
       = Returns (''opt'', [''p''], [VString []], None)"
  by code_simp

text \<open>
  C1 does not hold of the code. The claim: with the safety flag unset, a result column
  without a destination field makes the scan fail with an error naming the column. The
  check that does this (\<^verbatim>\<open>missingFields\<close> against \<^verbatim>\<open>isUnsafe(rows)\<close>) stands behind an
  unconditional \<^verbatim>\<open>return\<close> in \<^verbatim>\<open>scanAll\<close>. With the flag unset and the column
  \<^verbatim>\<open>extra\<close> unknown to the struct, \<^verbatim>\<open>scanAll\<close> panics, and \<^verbatim>\<open>fetchRows\<close> and
  \<^verbatim>\<open>fetchRow\<close>, which it was to call, discard the column and return no error.
\<close>

theorem safe_scan_discards_unmapped_column:
  "\<not> rows_unsafe ex_Rows
   \<and> Columns (rows_sql ex_Rows) = Inr [''id'', ''name'', ''extra'']
   \<and> map_of (ex_tm TUser) ''extra'' = None
   \<and> missingFields [[0], [1], []] = (2, Some (ErrorString ''missing field''))
   \<and> scanAll ex_Rows (Some (VPtr (VNilSlice TUser))) False
       = Panics (Msg ''reflect: call of reflect.Value.Elem on zero Value'')
   \<and> fetchRows ex_tm ex_conv (rows_sql ex_Rows) (Some (VPtr (VNilSlice TUser)))
       = Returns (None, Some (VPtr (VSlice TUser [VStruct ''User'' [VInt 7, VString ''ann'']])),
                  ex_cursor\<lparr>pending := [], closed := True\<rparr>)
   \<and> fetchRow ex_tm ex_conv (rows_sql ex_Rows) (Some (VPtr (VStruct ''User'' [VInt 0, VString []])))
       = Returns (None, Some (VPtr (VStruct ''User'' [VInt 7, VString ''ann''])),
                  ex_cursor\<lparr>pending := [], lastcols := Some [VInt 7, VString ''ann'', VString ''x'']\<rparr>)"
  by code_simp

theorem safe_scan_discards_unmapped_column_witness:
  "\<not> rows_unsafe ex_Rows
   \<and> fetchRows ex_tm ex_conv (rows_sql ex_Rows) (Some (VPtr (VNilSlice TUser)))
       = Returns (None, Some (VPtr (VSlice TUser [VStruct ''User'' [VInt 7, VString ''ann'']])),
                  ex_cursor\<lparr>pending := [], closed := True\<rparr>)"
  using safe_scan_discards_unmapped_column by simp

text \<open>
  C2 does not hold of the code. The claim: the primary operations return an error and
  never abort. \<^verbatim>\<open>DB.Insert\<close> runs its statement through \<^verbatim>\<open>MustExec\<close>, so a failing
  \<^verbatim>\<open>Exec\<close> panics with the driver's error; it panics too when \<^verbatim>\<open>Map\<close> yields no column
  (every field omitted). \<^verbatim>\<open>Map\<close> panics on a nil pointer, and \<^verbatim>\<open>scanAll\<close> on every
  non-nil pointer (lemmas \<open>insertTable_panics\<close>, \<open>scanAll_panics\<close>).
\<close>

theorem Insert_aborts_on_failure:
  "Insert ex_tm ex_isz ex_marsh ex_fmtv ex_DB (Some (VPtr (VStruct ''User'' [VInt 7, VString ''ann''])))
       = Panics (PanicErr (ExternalError ''duplicate key''))
   \<and> insertTable ex_DB ''user'' [''id'', ''name''] [VInt 7, VString ''ann'']
       = Panics (PanicErr (ExternalError ''duplicate key''))
   \<and> Insert ex_tm ex_isz ex_marsh ex_fmtv ex_DB (Some (VStruct ''Tagged'' [VString []]))
       = Panics (Msg ''slice bounds out of range [:-1]'')
   \<and> Map ex_tm ex_isz ex_marsh ex_fmtv (Some (VNilPtr TUser)) None
       = Panics (Msg ''reflect: call of reflect.Value.Interface on zero Value'')
   \<and> scanAll ex_Rows (Some (VPtr (VNilSlice TUser))) False
       = Panics (Msg ''reflect: call of reflect.Value.Elem on zero Value'')"
  by code_simp

text \<open>
  C3 does not hold of the code. The claim: a prepared statement derived from a
  transaction carries the transaction's flag. \<^verbatim>\<open>Tx.Stmtx\<close> returns a statement with the
  flag unset, from a transaction (begun from an unsafe connection) and a statement that
  both have it set; \<^verbatim>\<open>DB.Beginx\<close>,
  \<^verbatim>\<open>DB.Preparex\<close> and \<^verbatim>\<open>Tx.Preparex\<close> do pass the flag on (lemmas
  \<open>Beginx_inherits\<close>, \<open>DB_Preparex_inherits\<close>, \<open>Tx_Preparex_inherits\<close>).
\<close>

theorem Stmtx_drops_safety_flag:
  "Beginx (DB_Unsafe ex_DB) = (Some ex_Tx, None)
   \<and> tx_unsafe ex_Tx \<and> stmt_unsafe ex_Stmt
   \<and> Stmtx ex_Tx (I_Stmt ex_Stmt)
       = Returns \<lparr>stmt_sql = \<lparr>stmt_handle = 0\<rparr>, stmt_unsafe = False, stmt_Mapper = ex_Mapper\<rparr>"
  by (simp add: Beginx_def DB_Unsafe_def ex_DB_def ex_Tx_def ex_Stmt_def ex_sql_Tx_def)

text \<open>
  C4 does not hold of the code. The claim: scanning a result of two columns into
  \<^verbatim>\<open>int\<close> fails with the error for a column count. The check of the column count stands
  behind the unconditional \<^verbatim>\<open>return\<close> in \<^verbatim>\<open>scanAll\<close>. \<^verbatim>\<open>scanAll\<close> panics, and
  \<^verbatim>\<open>fetchRows\<close> and \<^verbatim>\<open>fetchRow\<close> answer \<^verbatim>\<open>ErrExpectingMapOrStruct\<close>, the error they
  give for one column as well.
\<close>

theorem scalar_destination_not_counted:
  "Columns (rows_sql ex_Rows2) = Inr [''id'', ''name'']
   \<and> scanAll ex_Rows2 (Some (VPtr (VNilSlice TInt))) False
       = Panics (Msg ''reflect: call of reflect.Value.Elem on zero Value'')
   \<and> fetchRows ex_tm ex_conv (rows_sql ex_Rows2) (Some (VPtr (VNilSlice TInt)))
       = Returns (Some ErrExpectingMapOrStruct, Some (VPtr (VSlice TInt [])),
                  ex_cursor2\<lparr>pending := [[VInt 8, VString ''bob'']], lastcols := Some [VInt 7, VString ''ann''],
                              closed := True\<rparr>)
   \<and> fetchRow ex_tm ex_conv (rows_sql ex_Rows2) (Some (VPtr (VInt 0)))
       = Returns (Some ErrExpectingMapOrStruct, Some (VPtr (VInt 0)),
                  ex_cursor2\<lparr>pending := [[VInt 8, VString ''bob'']], lastcols := Some [VInt 7, VString ''ann'']\<rparr>)
   \<and> fetchRow ex_tm ex_conv ex_cursor1 (Some (VPtr (VInt 0)))
       = Returns (Some ErrExpectingMapOrStruct, Some (VPtr (VInt 0)),
                  ex_cursor1\<lparr>pending := [], lastcols := Some [VInt 7]\<rparr>)"
  by code_simp

theorem scalar_destination_not_counted_witness:
  "fetchRows ex_tm ex_conv (rows_sql ex_Rows2) (Some (VPtr (VNilSlice TInt)))
       = Returns (Some ErrExpectingMapOrStruct, Some (VPtr (VSlice TInt [])),
                  ex_cursor2\<lparr>pending := [[VInt 8, VString ''bob'']], lastcols := Some [VInt 7, VString ''ann''],
                              closed := True\<rparr>)"
  using scalar_destination_not_counted by simp

text \<open>
  C8 does not hold of the code. The claim: \<^verbatim>\<open>mapper()\<close> rebuilds when \<^verbatim>\<open>NameMapper\<close> has
  changed since the shared mapper was built, and returns the cached mapper otherwise. The
  branch that builds the first mapper does not store the function it built it for. With
  \<^verbatim>\<open>NameMapper\<close> set to a function \<open>f\<close> before the first call: the first call builds a
  mapper for \<open>f\<close>; a second call builds another one although nothing changed; and when
  \<^verbatim>\<open>NameMapper\<close> is set back to \<^verbatim>\<open>strings.ToLower\<close> after the first call, the next call
  returns the mapper built for \<open>f\<close>. Where the stored function is the one the mapper
  was built for, the claim holds (lemmas \<open>mapper_rebuilds\<close>, \<open>mapper_cached\<close>).
\<close>

theorem mapper_serves_stale_mapper:
  "mapper (init_state\<lparr>NameMapper := UserFunc 1\<rparr>)
     = (\<lparr>mapper_addr = 0, tagName = ''db'', mapFunc = UserFunc 1\<rparr>,
        \<lparr>NameMapper = UserFunc 1, origMapper = strings_ToLower,
          mpr = Some \<lparr>mapper_addr = 0, tagName = ''db'', mapFunc = UserFunc 1\<rparr>, allocated = 1\<rparr>)
   \<and> mapper (\<lparr>NameMapper = UserFunc 1, origMapper = strings_ToLower,
          mpr = Some \<lparr>mapper_addr = 0, tagName = ''db'', mapFunc = UserFunc 1\<rparr>, allocated = 1\<rparr>
          \<lparr>NameMapper := strings_ToLower\<rparr>)
     = (\<lparr>mapper_addr = 0, tagName = ''db'', mapFunc = UserFunc 1\<rparr>,
        \<lparr>NameMapper = strings_ToLower, origMapper = strings_ToLower,
          mpr = Some \<lparr>mapper_addr = 0, tagName = ''db'', mapFunc = UserFunc 1\<rparr>, allocated = 1\<rparr>)
   \<and> mapper \<lparr>NameMapper = UserFunc 1, origMapper = strings_ToLower,
          mpr = Some \<lparr>mapper_addr = 0, tagName = ''db'', mapFunc = UserFunc 1\<rparr>, allocated = 1\<rparr>
     = (\<lparr>mapper_addr = 1, tagName = ''db'', mapFunc = UserFunc 1\<rparr>,
        \<lparr>NameMapper = UserFunc 1, origMapper = UserFunc 1,
          mpr = Some \<lparr>mapper_addr = 1, tagName = ''db'', mapFunc = UserFunc 1\<rparr>, allocated = 2\<rparr>)"
  by code_simp

end
